theory Spec2Isabelle
  imports Complex_Main
begin

section \<open>JavaScript strings\<close>

text \<open>
  A JavaScript string is modelled as a \<^typ>\<open>string\<close>: a list of 8-bit characters, read as
  the code units U+0000 to U+00FF. The white space of \<^verbatim>\<open>String.prototype.trim\<close> and of
  the regular-expression class \<^verbatim>\<open>\s\<close> is, in that range, TAB, LF, VT, FF, CR, SPACE and
  the no-break space U+00A0.
\<close>

definition isWhiteSpace :: "char \<Rightarrow> bool" where
  "isWhiteSpace c = (of_char c \<in> {9, 10, 11, 12, 13, 32, 160 :: nat})"

definition trim :: "string \<Rightarrow> string" where
  "trim s = rev (dropWhile isWhiteSpace (rev (dropWhile isWhiteSpace s)))"

text \<open>
  Case mapping on the code units U+0000 to U+00FF. \<^verbatim>\<open>toLowerCase\<close> stays in that range.
  \<^verbatim>\<open>toUpperCase\<close> maps the sharp s (U+00DF) to the two letters SS; the upper-case forms of
  U+00B5 and U+00FF lie beyond U+00FF, and the model leaves these two characters as they are
  (no comparison in the code can tell the difference: every string compared with an
  upper-cased one is made of ASCII letters).
\<close>

definition toUpperCaseChar :: "char \<Rightarrow> string" where
  "toUpperCaseChar c =
    (let n = (of_char c :: nat)
     in if (97 \<le> n \<and> n \<le> 122) \<or> (224 \<le> n \<and> n \<le> 254 \<and> n \<noteq> 247) then [char_of (n - 32)]
        else if n = 223 then ''SS''
        else [c])"

definition toUpperCase :: "string \<Rightarrow> string" where
  "toUpperCase s = concat (map toUpperCaseChar s)"

definition toLowerCaseChar :: "char \<Rightarrow> char" where
  "toLowerCaseChar c =
    (let n = (of_char c :: nat)
     in if (65 \<le> n \<and> n \<le> 90) \<or> (192 \<le> n \<and> n \<le> 222 \<and> n \<noteq> 215) then char_of (n + 32)
        else c)"

definition toLowerCase :: "string \<Rightarrow> string" where
  "toLowerCase s = map toLowerCaseChar s"

text \<open>What the code throws: an \<^verbatim>\<open>Error\<close> with its message, or a \<^verbatim>\<open>TypeError\<close> of the
  runtime.\<close>

datatype exception = Error string | TypeError

section \<open>Shared validation types\<close>

datatype ErrorType =
  INVALID_FILE_TYPE | UNSUPPORTED_NOTE | EMPTY_INPUT | PARSING_ERROR | RENDERING_ERROR | EXPORT_ERROR

datatype WarningType = NOTE_CONVERSION | EMPTY_LINE | PERFORMANCE_WARNING

text \<open>Optional fields (\<^verbatim>\<open>line?\<close>, \<^verbatim>\<open>position?\<close>, \<^verbatim>\<open>suggestions?\<close>) are options.\<close>

record ValidationError =
  etype :: ErrorType
  message :: string
  line :: "nat option"
  position :: "nat option"
  suggestions :: "string list option"

record ValidationWarning =
  wtype :: WarningType
  wmessage :: string
  wline :: "nat option"
  wposition :: "nat option"

record ValidationResult =
  isValid :: bool
  errors :: "ValidationError list"
  warnings :: "ValidationWarning list"

definition SUPPORTED_NOTES :: "string list" where
  "SUPPORTED_NOTES = [''F'', ''G'', ''A'', ''Bb'', ''C'', ''D'', ''E'']"

section \<open>Core types\<close>

text \<open>
  A \<^verbatim>\<open>Date\<close> is read through its UTC fields, the only ones the code uses
  (\<^verbatim>\<open>toISOString\<close>).
\<close>

record JSDate =
  year :: int
  month :: nat
  day :: nat
  hours :: nat
  minutes :: nat
  seconds :: nat
  milliseconds :: nat

record Metadata =
  originalInput :: string
  parseTimestamp :: JSDate
  noteCount :: nat

record Song =
  title :: string
  lines :: "string list list"
  metadata :: "Metadata option"

record Colors =
  background :: string
  holeFilled :: string
  holeEmpty :: string
  text_colour :: string

text \<open>
  The fields of type \<^verbatim>\<open>number\<close> are real numbers: the arithmetic of the layout is read
  exactly, without the rounding of double-precision floats.
\<close>

record ChartConfig =
  canvasWidth :: real
  canvasHeight :: real
  holeRadius :: real
  spacing :: real
  colors :: Colors

record Margins =
  top :: real
  right :: real
  bottom :: real
  left :: real

record LayoutInfo =
  totalWidth :: real
  totalHeight :: real
  lineHeight :: real
  patternWidth :: real
  patternHeight :: real
  margins :: Margins

section \<open>ChartRenderer: layout\<close>

text \<open>\<^verbatim>\<open>Math.max(...xs)\<close> on a non-empty array; on the empty one it is \<^verbatim>\<open>-Infinity\<close>,
  which \<^verbatim>\<open>calculateLayout\<close> never asks for.\<close>

fun mathMax :: "nat list \<Rightarrow> nat option" where
  "mathMax [] = None"
| "mathMax (x # xs) = Some (fold max xs x)"

text \<open>The local constant \<^verbatim>\<open>maxNotesPerLine\<close> of \<^verbatim>\<open>calculateLayout\<close> (the parser's
  configuration has a field of that name).\<close>

definition layoutMaxNotes :: "Song \<Rightarrow> nat" where
  "layoutMaxNotes song =
    (if length (lines song) > 0
     then (case mathMax (map length (lines song)) of Some m \<Rightarrow> m | None \<Rightarrow> 1)
     else 1)"

definition calculateLayout :: "ChartConfig \<Rightarrow> Song \<Rightarrow> LayoutInfo" where
  "calculateLayout config song =
    (let patternWidth' = (holeRadius config * 2 * 2) + spacing config;
         patternHeight' = (holeRadius config * 2 * 2) + spacing config;
         lineWidth = real (layoutMaxNotes song) * (patternWidth' + spacing config * 2);
         lineHeight' = patternHeight' + spacing config * 3;
         margins' = \<lparr>top = spacing config * 2, right = spacing config * 2,
                     bottom = spacing config * 2, left = spacing config * 2\<rparr>;
         totalWidth' = lineWidth + left margins' + right margins';
         totalHeight' = real (max (length (lines song)) 1) * lineHeight'
                        + top margins' + bottom margins' + spacing config * 2
     in \<lparr>totalWidth = totalWidth', totalHeight = totalHeight', lineHeight = lineHeight',
         patternWidth = patternWidth', patternHeight = patternHeight', margins = margins'\<rparr>)"


section \<open>FingeringEngine\<close>

record FingeringPattern =
  note_of :: string
  holes :: "bool list"

text \<open>The table \<^verbatim>\<open>FINGERING_PATTERNS\<close>, a record keyed by the seven note names.\<close>

definition FINGERING_PATTERNS :: "(string \<times> FingeringPattern) list" where
  "FINGERING_PATTERNS =
    [(''F'',  \<lparr>note_of = ''F'',  holes = [True, True, True, True]\<rparr>),
     (''G'',  \<lparr>note_of = ''G'',  holes = [True, False, True, True]\<rparr>),
     (''A'',  \<lparr>note_of = ''A'',  holes = [True, True, True, False]\<rparr>),
     (''Bb'', \<lparr>note_of = ''Bb'', holes = [True, False, True, False]\<rparr>),
     (''C'',  \<lparr>note_of = ''C'',  holes = [False, False, True, True]\<rparr>),
     (''D'',  \<lparr>note_of = ''D'',  holes = [False, False, True, False]\<rparr>),
     (''E'',  \<lparr>note_of = ''E'',  holes = [False, True, False, False]\<rparr>)]"

definition normalizeNote :: "string \<Rightarrow> string" where
  "normalizeNote n = trim n"

definition isSupported :: "string \<Rightarrow> bool" where
  "isSupported n = (normalizeNote n \<in> set SUPPORTED_NOTES)"

text \<open>\<^verbatim>\<open>getPattern\<close> returns \<^verbatim>\<open>null\<close> (here \<^const>\<open>None\<close>) for an unsupported note.\<close>

definition getPattern :: "string \<Rightarrow> FingeringPattern option" where
  "getPattern n =
    (let normalizedNote = normalizeNote n
     in if \<not> isSupported normalizedNote then None
        else map_of FINGERING_PATTERNS normalizedNote)"

text \<open>
  \<^verbatim>\<open>noteMap[note]\<close> reads a property of an object literal: an own property when \<^verbatim>\<open>note\<close> is
  one of the five keys, otherwise a property inherited from \<^verbatim>\<open>Object.prototype\<close> when
  \<^verbatim>\<open>note\<close> names one (each of them a function or an object: truthy, and not iterable),
  otherwise \<^verbatim>\<open>undefined\<close>.
\<close>

definition noteMap :: "(string \<times> string list) list" where
  "noteMap =
    [(''B'', [''Bb'', ''A'', ''C'']),
     (''Db'', [''D'', ''C'']),
     (''Eb'', [''E'', ''D'']),
     (''Gb'', [''G'', ''F'']),
     (''Ab'', [''A'', ''G''])]"

definition objectPrototypeKeys :: "string list" where
  "objectPrototypeKeys =
    [''constructor'', ''__defineGetter__'', ''__defineSetter__'', ''hasOwnProperty'',
     ''__lookupGetter__'', ''__lookupSetter__'', ''isPrototypeOf'', ''propertyIsEnumerable'',
     ''toString'', ''valueOf'', ''__proto__'', ''toLocaleString'']"

datatype property = Own "string list" | Inherited | Undefined

definition noteMapGet :: "string \<Rightarrow> property" where
  "noteMapGet n =
    (case map_of noteMap n of
       Some v \<Rightarrow> Own v
     | None \<Rightarrow> if n \<in> set objectPrototypeKeys then Inherited else Undefined)"

text \<open>
  \<^verbatim>\<open>getSuggestions\<close>: the three steps add to one array in turn. Spreading an inherited
  property into \<^verbatim>\<open>push\<close> throws a \<^verbatim>\<open>TypeError\<close>.
\<close>

definition getSuggestions :: "string \<Rightarrow> exception + string list" where
  "getSuggestions n =
    (let s1 = (if toLowerCase n = ''b'' then [''Bb''] else [])
     in case noteMapGet n of
          Inherited \<Rightarrow> Inl TypeError
        | Own v \<Rightarrow>
            (let s2 = s1 @ v in Inr (if length s2 = 0 then s2 @ SUPPORTED_NOTES else s2))
        | Undefined \<Rightarrow> Inr (if length s1 = 0 then s1 @ SUPPORTED_NOTES else s1))"

definition unsupportedNoteError :: "string \<Rightarrow> nat \<Rightarrow> string list \<Rightarrow> ValidationError" where
  "unsupportedNoteError n i sg =
    \<lparr>etype = UNSUPPORTED_NOTE,
     message = ''Note '' @ [CHR 0x22] @ n @ [CHR 0x22] @ '' is not supported by 4-hole ocarina'',
     line = None, position = Some i, suggestions = Some sg\<rparr>"

text \<open>The loop of \<^verbatim>\<open>validateNotes\<close> from index \<open>i\<close> on; an exception ends it.\<close>

fun validateNotes_loop :: "nat \<Rightarrow> string list \<Rightarrow> exception + ValidationError list" where
  "validateNotes_loop i [] = Inr []"
| "validateNotes_loop i (n # rest) =
    (let normalizedNote = normalizeNote n
     in if \<not> isSupported normalizedNote
        then (case getSuggestions normalizedNote of
                Inl e \<Rightarrow> Inl e
              | Inr sg \<Rightarrow>
                  (case validateNotes_loop (i + 1) rest of
                     Inl e \<Rightarrow> Inl e
                   | Inr es \<Rightarrow> Inr (unsupportedNoteError n i sg # es)))
        else validateNotes_loop (i + 1) rest)"

definition validateNotes :: "string list \<Rightarrow> exception + ValidationResult" where
  "validateNotes notes =
    (case validateNotes_loop 0 notes of
       Inl e \<Rightarrow> Inl e
     | Inr es \<Rightarrow> Inr \<lparr>isValid = (length es = 0), errors = es, warnings = []\<rparr>)"

text \<open>
  The suggestions as the specification words them, for comparison with \<^const>\<open>getSuggestions\<close>:
  \<open>Bb\<close> alone for a token that is \<open>B\<close> in either case, otherwise the entry of the table,
  otherwise the seven names.
\<close>

definition specSuggestions :: "string \<Rightarrow> string list" where
  "specSuggestions n =
    (if toLowerCase n = ''b'' then [''Bb'']
     else (case map_of noteMap n of Some v \<Rightarrow> v | None \<Rightarrow> SUPPORTED_NOTES))"

section \<open>Numbers as text and dates\<close>

definition digitChar :: "nat \<Rightarrow> char" where
  "digitChar d = char_of (48 + d mod 10)"

text \<open>\<^verbatim>\<open>String(n)\<close> for a natural number: its decimal digits.\<close>

fun showNat :: "nat \<Rightarrow> string" where
  "showNat n = (if n < 10 then [digitChar n] else showNat (n div 10) @ [digitChar (n mod 10)])"

declare showNat.simps [simp del]

text \<open>\<^verbatim>\<open>padStart(k, '0')\<close> of the decimal digits.\<close>

definition padZero :: "nat \<Rightarrow> nat \<Rightarrow> string" where
  "padZero k n = replicate (k - length (showNat n)) (CHR ''0'') @ showNat n"

text \<open>The fields of a valid \<^verbatim>\<open>Date\<close>, read in UTC.\<close>

definition validDate :: "JSDate \<Rightarrow> bool" where
  "validDate d =
    (1 \<le> month d \<and> month d \<le> 12 \<and> 1 \<le> day d \<and> day d \<le> 31 \<and> hours d \<le> 23
     \<and> minutes d \<le> 59 \<and> seconds d \<le> 59 \<and> milliseconds d \<le> 999
     \<and> - 271821 \<le> year d \<and> year d \<le> 275760)"

text \<open>
  \<^verbatim>\<open>Date.prototype.toISOString\<close>: \<^verbatim>\<open>YYYY-MM-DDTHH:mm:ss.sssZ\<close>, with a sign and six digits
  for a year outside 0 to 9999.
\<close>

definition toISOString :: "JSDate \<Rightarrow> string" where
  "toISOString d =
    (if 0 \<le> year d \<and> year d \<le> 9999 then padZero 4 (nat (year d))
     else (if year d < 0 then ''-'' else ''+'') @ padZero 6 (nat \<bar>year d\<bar>))
    @ ''-'' @ padZero 2 (month d) @ ''-'' @ padZero 2 (day d)
    @ ''T'' @ padZero 2 (hours d) @ '':'' @ padZero 2 (minutes d) @ '':'' @ padZero 2 (seconds d)
    @ ''.'' @ padZero 3 (milliseconds d) @ ''Z''"

section \<open>Export file names\<close>

text \<open>The class \<^verbatim>\<open>\w\<close>: ASCII letters, digits and the underscore.\<close>

definition isWordChar :: "char \<Rightarrow> bool" where
  "isWordChar c =
    (let n = (of_char c :: nat)
     in (65 \<le> n \<and> n \<le> 90) \<or> (97 \<le> n \<and> n \<le> 122) \<or> (48 \<le> n \<and> n \<le> 57) \<or> n = 95)"

text \<open>\<^verbatim>\<open>replace(/[^\w\s-]/g, '')\<close>\<close>

definition removeSpecial :: "string \<Rightarrow> string" where
  "removeSpecial s = filter (\<lambda>c. isWordChar c \<or> isWhiteSpace c \<or> c = CHR ''-'') s"

text \<open>\<^verbatim>\<open>replace(/P+/g, '-')\<close> for a character class \<open>P\<close>: each maximal run becomes one hyphen.\<close>

function replaceRuns :: "(char \<Rightarrow> bool) \<Rightarrow> string \<Rightarrow> string" where
  "replaceRuns P [] = []"
| "replaceRuns P (c # cs) =
    (if P c then CHR ''-'' # replaceRuns P (dropWhile P cs) else c # replaceRuns P cs)"
  by pat_completeness auto
termination
  by (relation "measure (\<lambda>(P, s). length s)") (auto simp: length_dropWhile_le less_Suc_eq_le)

text \<open>
  \<^verbatim>\<open>replace(/^-|-$/g, '')\<close>: a hyphen at the start is removed, and then a hyphen at the end of
  what follows it.
\<close>

definition stripEdgeHyphens :: "string \<Rightarrow> string" where
  "stripEdgeHyphens s =
    (let s1 = (if s \<noteq> [] \<and> hd s = CHR ''-'' then tl s else s)
     in if s1 \<noteq> [] \<and> last s1 = CHR ''-'' then butlast s1 else s1)"

text \<open>\<^verbatim>\<open>substring(0, n)\<close> for an integer \<open>n\<close>: a negative bound counts as 0.\<close>

definition substring0 :: "int \<Rightarrow> string \<Rightarrow> string" where
  "substring0 n s = take (nat n) s"

definition cleanTitle :: "int \<Rightarrow> string \<Rightarrow> string" where
  "cleanTitle maxLen songTitle =
    substring0 maxLen
      (toLowerCase
        (stripEdgeHyphens
          (replaceRuns (\<lambda>c. c = CHR ''-'')
            (replaceRuns isWhiteSpace
              (removeSpecial (trim songTitle))))))"

text \<open>\<^verbatim>\<open>new Date().toISOString().slice(0, 19).replace(/[:-]/g, '').toLowerCase()\<close>, the date
  being that of the call.\<close>

definition timestamp :: "JSDate \<Rightarrow> string" where
  "timestamp now =
    toLowerCase (filter (\<lambda>c. c \<noteq> CHR '':'' \<and> c \<noteq> CHR ''-'') (take 19 (toISOString now)))"

text \<open>\<^verbatim>\<open>ChartRenderer.generateFilename\<close>\<close>

definition generateFilename :: "JSDate \<Rightarrow> string \<Rightarrow> string" where
  "generateFilename now songTitle =
    (let clean = cleanTitle 50 songTitle;
         ts = timestamp now
     in if clean \<noteq> [] then clean @ ''-'' @ ts @ ''.png''
        else ''ocarina-chart-'' @ ts @ ''.png'')"

text \<open>\<^verbatim>\<open>ExportManager.generateFilename\<close>, with the export configuration of the manager.\<close>

datatype ExportFormat = png | jpeg

record ExportConfig =
  defaultFormat :: ExportFormat
  quality :: real
  includeTimestamp :: bool
  maxFilenameLength :: int

definition DEFAULT_EXPORT_CONFIG :: ExportConfig where
  "DEFAULT_EXPORT_CONFIG =
    \<lparr>defaultFormat = png, quality = 1.0, includeTimestamp = True, maxFilenameLength = 50\<rparr>"

datatype TitleArg = TitleString string | TitleSong Song

definition exportGenerateFilename ::
  "ExportConfig \<Rightarrow> JSDate \<Rightarrow> TitleArg \<Rightarrow> string \<Rightarrow> string" where
  "exportGenerateFilename config now songTitle format =
    (let titleString = (case songTitle of TitleString s \<Rightarrow> s | TitleSong song \<Rightarrow> title song);
         clean = cleanTitle (maxFilenameLength config) titleString;
         filename = (if clean \<noteq> [] then clean else ''ocarina-chart'');
         filename' = (if includeTimestamp config then filename @ ''-'' @ timestamp now
                      else filename)
     in filename' @ ''.'' @ format)"

text \<open>
  The file-name pattern as the specification words it, for comparison with
  \<^const>\<open>generateFilename\<close>: the slug, a hyphen, fourteen decimal digits, and \<^verbatim>\<open>.png\<close>.
\<close>

definition isDigit :: "char \<Rightarrow> bool" where
  "isDigit c = (48 \<le> (of_char c :: nat) \<and> (of_char c :: nat) \<le> 57)"

definition specFilenamePattern :: "string \<Rightarrow> string \<Rightarrow> bool" where
  "specFilenamePattern slug f =
    (let ts = take 14 (drop (length slug + 1) f)
     in f = slug @ ''-'' @ ts @ ''.png'' \<and> length ts = 14 \<and> list_all isDigit ts)"

section \<open>NoteParser\<close>

text \<open>The limits are of type \<^verbatim>\<open>number\<close> and come from the caller: integers here.\<close>

record ParseConfig =
  autoConvertB :: bool
  strictValidation :: bool
  maxLines :: int
  maxNotesPerLine :: int

definition DEFAULT_CONFIG :: ParseConfig where
  "DEFAULT_CONFIG =
    \<lparr>autoConvertB = True, strictValidation = True, maxLines = 100, maxNotesPerLine = 50\<rparr>"

definition showInt :: "int \<Rightarrow> string" where
  "showInt i = (if i < 0 then ''-'' @ showNat (nat (- i)) else showNat (nat i))"

text \<open>\<^verbatim>\<open>Array.prototype.join\<close>\<close>

fun join :: "string \<Rightarrow> string list \<Rightarrow> string" where
  "join sep [] = []"
| "join sep [x] = x"
| "join sep (x # y # ys) = x @ sep @ join sep (y # ys)"

text \<open>
  \<^verbatim>\<open>input.split(/\r?\n/)\<close>: a line feed, or a carriage return followed by a line feed, ends a
  piece; the result has at least one piece.
\<close>

fun splitLines :: "string \<Rightarrow> string list" where
  "splitLines [] = [[]]"
| "splitLines [c] = (if c = CHR 0x0A then [[], []] else [[c]])"
| "splitLines (c # d # cs) =
    (if c = CHR 0x0A then [] # splitLines (d # cs)
     else if c = CHR 0x0D \<and> d = CHR 0x0A then [] # splitLines cs
     else (case splitLines (d # cs) of
             l # ls \<Rightarrow> (c # l) # ls
           | [] \<Rightarrow> [[c]]))"

definition preprocessInput :: "string \<Rightarrow> string list" where
  "preprocessInput input = map trim (splitLines input)"

text \<open>The class \<^verbatim>\<open>[\s,|\-]\<close> of the separators.\<close>

definition isSeparator :: "char \<Rightarrow> bool" where
  "isSeparator c = (isWhiteSpace c \<or> c = CHR '','' \<or> c = CHR ''|'' \<or> c = CHR ''-'')"

text \<open>
  \<^verbatim>\<open>line.split(/[\s,|\-]+/)\<close>: a match takes a whole run of separators; a run at the start
  or at the end of the line leaves an empty piece there.
\<close>

function splitSeparators :: "string \<Rightarrow> string list" where
  "splitSeparators [] = [[]]"
| "splitSeparators (c # cs) =
    (if isSeparator c then [] # splitSeparators (dropWhile isSeparator cs)
     else (case splitSeparators cs of
             t # ts \<Rightarrow> (c # t) # ts
           | [] \<Rightarrow> [[c]]))"
  by pat_completeness auto
termination
  by (relation "measure length") (auto simp: length_dropWhile_le less_Suc_eq_le)

definition conversionWarning :: ValidationWarning where
  "conversionWarning =
    \<lparr>wtype = NOTE_CONVERSION,
     wmessage = ''Converted 'B' to 'Bb' (4-hole ocarinas use Bb instead of B)'',
     wline = None, wposition = None\<rparr>"

text \<open>\<^verbatim>\<open>convertNotes\<close>: the loop over the notes fills two arrays.\<close>

fun convertNotes :: "ParseConfig \<Rightarrow> string list \<Rightarrow> string list \<times> ValidationWarning list" where
  "convertNotes config [] = ([], [])"
| "convertNotes config (n # ns) =
    (let (converted, ws) = convertNotes config ns
     in if toUpperCase n = ''B'' \<and> autoConvertB config
        then (''Bb'' # converted, conversionWarning # ws)
        else (n # converted, ws))"

definition UNTITLED :: string where
  "UNTITLED = ''Untitled Song''"

text \<open>
  The canonical form of a character under the flag \<^verbatim>\<open>i\<close> of a regular expression: its
  upper-case form when that is one character, never an ASCII one for a character beyond ASCII.
\<close>

definition canonicalize :: "char \<Rightarrow> char" where
  "canonicalize c =
    (case toUpperCaseChar c of
       [u] \<Rightarrow> if 128 \<le> (of_char c :: nat) \<and> (of_char u :: nat) < 128 then c else u
     | _ \<Rightarrow> c)"

text \<open>One alternative \<open>w\<close> of \<^verbatim>\<open>^(title|song|name):\<close> at the start of \<open>s\<close>; what follows the
  colon when it matches.\<close>

definition matchPrefix :: "string \<Rightarrow> string \<Rightarrow> string option" where
  "matchPrefix w s =
    (if length w + 1 \<le> length s
        \<and> map canonicalize (take (length w) s) = map canonicalize w
        \<and> s ! length w = CHR '':''
     then Some (drop (length w + 1) s) else None)"

text \<open>\<^verbatim>\<open>replace(/^(title|song|name):\s*/i, '')\<close>\<close>

definition stripTitlePrefix :: "string \<Rightarrow> string" where
  "stripTitlePrefix s =
    (case matchPrefix ''title'' s of
       Some r \<Rightarrow> dropWhile isWhiteSpace r
     | None \<Rightarrow>
        (case matchPrefix ''song'' s of
           Some r \<Rightarrow> dropWhile isWhiteSpace r
         | None \<Rightarrow>
            (case matchPrefix ''name'' s of
               Some r \<Rightarrow> dropWhile isWhiteSpace r
             | None \<Rightarrow> s)))"

definition extractTitle :: "string list \<Rightarrow> string" where
  "extractTitle ls =
    (if length ls = 0 then UNTITLED
     else (let titleLine = trim (ls ! 0)
           in if length titleLine = 0 then UNTITLED
              else (let clean = trim (stripTitlePrefix titleLine)
                    in if clean \<noteq> [] then clean else UNTITLED)))"

definition parseNotesFromLine :: "ParseConfig \<Rightarrow> string \<Rightarrow> string list" where
  "parseNotesFromLine config l =
    (let rawNotes = filter (\<lambda>n. length n > 0) (map trim (splitSeparators l));
         (ns, ws) = convertNotes config rawNotes
     in map (\<lambda>n. let upperNote = toUpperCase n
                 in if upperNote = ''BB'' then ''Bb''
                    else if upperNote \<in> set SUPPORTED_NOTES then upperNote
                    else n) ns)"

fun parseNoteLines :: "ParseConfig \<Rightarrow> string list \<Rightarrow> string list list" where
  "parseNoteLines config [] = []"
| "parseNoteLines config (l # ls) =
    (if length (trim l) = 0 then parseNoteLines config ls
     else (let ns = parseNotesFromLine config l
           in if length ns > 0 then ns # parseNoteLines config ls
              else parseNoteLines config ls))"

definition willConvertWarning :: "nat \<Rightarrow> nat \<Rightarrow> ValidationWarning" where
  "willConvertWarning lineNumber pos =
    \<lparr>wtype = NOTE_CONVERSION, wmessage = ''Note 'B' will be converted to 'Bb'' @ [CHR 0x27],
     wline = Some lineNumber, wposition = Some pos\<rparr>"

definition unsupportedMessage :: "string \<Rightarrow> nat \<Rightarrow> nat \<Rightarrow> string" where
  "unsupportedMessage n lineNumber pos =
    ''Unsupported note '' @ [CHR 0x27] @ n @ [CHR 0x27] @ '' at line '' @ showNat lineNumber
      @ '', position '' @ showNat pos"

definition validateNote :: "ParseConfig \<Rightarrow> string \<Rightarrow> nat \<Rightarrow> nat \<Rightarrow> ValidationResult" where
  "validateNote config n lineNumber pos =
    (let normalizedNote = toUpperCase (take 1 n) @ toLowerCase (drop 1 n);
         (es, ws) =
           (if normalizedNote \<notin> set SUPPORTED_NOTES then
              (if toUpperCase n = ''B'' then
                 (if autoConvertB config then ([], [willConvertWarning lineNumber pos])
                  else ([\<lparr>etype = UNSUPPORTED_NOTE,
                          message = unsupportedMessage n lineNumber pos,
                          line = Some lineNumber, position = Some pos,
                          suggestions = Some (''Use Bb instead of B for 4-hole ocarinas''
                                              # SUPPORTED_NOTES)\<rparr>], []))
               else ([\<lparr>etype = UNSUPPORTED_NOTE,
                       message = unsupportedMessage n lineNumber pos,
                       line = Some lineNumber, position = Some pos,
                       suggestions = Some [''Supported notes: '' @ join '', '' SUPPORTED_NOTES]\<rparr>],
                     []))
            else ([], []))
     in \<lparr>isValid = (length es = 0), errors = es, warnings = ws\<rparr>)"

definition validateNoteLine :: "ParseConfig \<Rightarrow> string \<Rightarrow> nat \<Rightarrow> ValidationResult" where
  "validateNoteLine config l lineNumber =
    (if length (trim l) = 0 then
       \<lparr>isValid = True, errors = [],
        warnings = [\<lparr>wtype = EMPTY_LINE,
                     wmessage = ''Line '' @ showNat lineNumber @ '' is empty'',
                     wline = Some lineNumber, wposition = None\<rparr>]\<rparr>
     else
       (let rawNotes = filter (\<lambda>n. length n > 0) (map trim (splitSeparators l));
            ws1 = concat (map (\<lambda>i. if toUpperCase (rawNotes ! i) = ''B'' \<and> autoConvertB config
                                    then [willConvertWarning lineNumber (i + 1)] else [])
                           [0..<length rawNotes]);
            ns = parseNotesFromLine config l;
            es1 = (if int (length ns) > maxNotesPerLine config then
                     [\<lparr>etype = PARSING_ERROR,
                       message = ''Too many notes on line '' @ showNat lineNumber @ '' (''
                         @ showNat (length ns) @ ''). Maximum: ''
                         @ showInt (maxNotesPerLine config),
                       line = Some lineNumber, position = None,
                       suggestions = Some [''Split long lines into multiple shorter lines'']\<rparr>]
                   else []);
            vs = map (\<lambda>i. validateNote config (ns ! i) lineNumber (i + 1)) [0..<length ns];
            es = es1 @ concat (map errors vs);
            ws = ws1 @ concat (map (\<lambda>v. filter (\<lambda>w. wtype w \<noteq> NOTE_CONVERSION) (warnings v)) vs)
        in \<lparr>isValid = (length es = 0), errors = es, warnings = ws\<rparr>))"

definition validateInput :: "ParseConfig \<Rightarrow> string \<Rightarrow> ValidationResult" where
  "validateInput config input =
    (if input = [] \<or> length (trim input) = 0 then
       \<lparr>isValid = False,
        errors = [\<lparr>etype = EMPTY_INPUT, message = ''Input cannot be empty'',
                   line = None, position = None,
                   suggestions = Some [''Enter song notation or load an example song'']\<rparr>],
        warnings = []\<rparr>
     else
       (let ls = preprocessInput input;
            es1 = (if length ls < 2 then
                     [\<lparr>etype = PARSING_ERROR,
                       message = ''Input must contain a title and at least one line of notes'',
                       line = None, position = None,
                       suggestions = Some
                         [''Add a title on the first line and notes on subsequent lines'']\<rparr>]
                   else []);
            es2 = (if int (length ls) > maxLines config then
                     [\<lparr>etype = PARSING_ERROR,
                       message = ''Too many lines ('' @ showNat (length ls)
                         @ ''). Maximum allowed: '' @ showInt (maxLines config),
                       line = None, position = None,
                       suggestions = Some [''Split large songs into smaller sections'']\<rparr>]
                   else []);
            vs = map (\<lambda>i. validateNoteLine config (ls ! i) (i + 1)) [1..<length ls];
            es = es1 @ es2 @ concat (map errors vs);
            ws = concat (map warnings vs)
        in \<lparr>isValid = (length es = 0), errors = es, warnings = ws\<rparr>))"

text \<open>\<^verbatim>\<open>parseSong\<close> throws an \<^verbatim>\<open>Error\<close> or returns the song; \<open>now\<close> is the date of the call.\<close>

definition parseSong :: "ParseConfig \<Rightarrow> JSDate \<Rightarrow> string \<Rightarrow> exception + Song" where
  "parseSong config now input =
    (let validation = validateInput config input
     in if \<not> isValid validation
        then Inl (Error (''Parsing failed: '' @ join '', '' (map message (errors validation))))
        else (let ls = preprocessInput input;
                  t = extractTitle ls;
                  noteLines = parseNoteLines config (drop 1 ls)
              in Inr \<lparr>title = t, lines = noteLines,
                      metadata = Some \<lparr>originalInput = input, parseTimestamp = now,
                                        noteCount = length (concat noteLines)\<rparr>\<rparr>))"

section \<open>Properties of the fingering table\<close>

lemma trim_note_names:
  "trim ''F'' = ''F''" "trim ''G'' = ''G''" "trim ''A'' = ''A''" "trim ''Bb'' = ''Bb''"
  "trim ''C'' = ''C''" "trim ''D'' = ''D''" "trim ''E'' = ''E''"
  by (simp_all add: trim_def isWhiteSpace_def)

text \<open>
  Claim C1. For each of the seven notes F, G, A, Bb, C, D, E, \<^const>\<open>getPattern\<close> returns a
  pattern whose four holes are those of the canonical table, and the seven hole vectors are
  pairwise distinct.
\<close>

theorem getPattern_canonical_table:
  "map_option holes (getPattern ''F'') = Some [True, True, True, True]
   \<and> map_option holes (getPattern ''G'') = Some [True, False, True, True]
   \<and> map_option holes (getPattern ''A'') = Some [True, True, True, False]
   \<and> map_option holes (getPattern ''Bb'') = Some [True, False, True, False]
   \<and> map_option holes (getPattern ''C'') = Some [False, False, True, True]
   \<and> map_option holes (getPattern ''D'') = Some [False, False, True, False]
   \<and> map_option holes (getPattern ''E'') = Some [False, True, False, False]
   \<and> distinct (map (\<lambda>n. map_option holes (getPattern n)) SUPPORTED_NOTES)"
  by (simp add: getPattern_def isSupported_def normalizeNote_def trim_note_names
      SUPPORTED_NOTES_def FINGERING_PATTERNS_def)

section \<open>Properties of the layout\<close>

lemma fold_max_ge: "(a::nat) \<le> fold max xs a"
  by (induction xs arbitrary: a) (auto intro: order_trans [OF max.cobounded2])

lemma fold_max_member: "x \<in> set xs \<Longrightarrow> (x::nat) \<le> fold max xs a"
proof (induction xs arbitrary: a)
  case Nil
  then show ?case by simp
next
  case (Cons y ys)
  show ?case
  proof (cases "x = y")
    case True
    have "y \<le> max y a" by simp
    also have "\<dots> \<le> fold max ys (max y a)" by (rule fold_max_ge)
    finally show ?thesis using True by simp
  next
    case False
    with Cons show ?thesis by simp
  qed
qed

lemma fold_max_in: "fold max xs (a::nat) \<in> insert a (set xs)"
  by (induction xs arbitrary: a) (auto simp: max_def)

lemma layoutMaxNotes_Max:
  "lines song \<noteq> [] \<Longrightarrow> layoutMaxNotes song = Max (length ` set (lines song))"
proof -
  assume ne: "lines song \<noteq> []"
  then obtain l ls where eq: "lines song = l # ls" by (cases "lines song") auto
  let ?m = "fold max (map length ls) (length l)"
  have m: "layoutMaxNotes song = ?m"
    by (simp add: layoutMaxNotes_def eq)
  have "?m \<in> insert (length l) (set (map length ls))" by (rule fold_max_in)
  then have mem: "?m \<in> length ` set (lines song)" by (auto simp: eq)
  have ub: "\<And>k. k \<in> length ` set (lines song) \<Longrightarrow> k \<le> ?m"
    using fold_max_ge [of "length l" "map length ls"]
          fold_max_member [of _ "map length ls" "length l"]
    by (auto simp: eq)
  have "Max (length ` set (lines song)) = ?m"
    by (rule Max_eqI) (use mem ub in auto)
  with m show ?thesis by simp
qed

text \<open>
  Claim C5. For every song and configuration \<^const>\<open>calculateLayout\<close> returns: pattern width
  and height \<open>holeRadius * 4 + spacing\<close>; line height \<open>patternHeight + spacing * 3\<close>; the four
  margins \<open>spacing * 2\<close>; total width \<open>layoutMaxNotes * (patternWidth + spacing * 2)\<close> plus the
  left and right margins, where the maximum is the greatest line length, or 1 for a song with no
  lines; total height \<open>max (number of lines) 1 * lineHeight\<close> plus the top and bottom margins
  plus \<open>spacing * 2\<close>.
\<close>

theorem calculateLayout_formulas:
  "patternWidth (calculateLayout config song) = holeRadius config * 4 + spacing config
   \<and> patternHeight (calculateLayout config song) = holeRadius config * 4 + spacing config
   \<and> lineHeight (calculateLayout config song)
       = patternHeight (calculateLayout config song) + spacing config * 3
   \<and> top (margins (calculateLayout config song)) = spacing config * 2
   \<and> right (margins (calculateLayout config song)) = spacing config * 2
   \<and> bottom (margins (calculateLayout config song)) = spacing config * 2
   \<and> left (margins (calculateLayout config song)) = spacing config * 2
   \<and> totalWidth (calculateLayout config song)
       = real (if lines song = [] then 1 else Max (length ` set (lines song)))
           * (patternWidth (calculateLayout config song) + spacing config * 2)
         + left (margins (calculateLayout config song))
         + right (margins (calculateLayout config song))
   \<and> totalHeight (calculateLayout config song)
       = real (max (length (lines song)) 1) * lineHeight (calculateLayout config song)
         + top (margins (calculateLayout config song))
         + bottom (margins (calculateLayout config song)) + spacing config * 2"
proof -
  have n: "layoutMaxNotes song = (if lines song = [] then 1 else Max (length ` set (lines song)))"
    using layoutMaxNotes_Max [of song] by (simp add: layoutMaxNotes_def)
  show ?thesis
    unfolding calculateLayout_def Let_def n [symmetric] by simp
qed










section \<open>Characters, case and white space\<close>

lemma dropWhile_id: "xs = [] \<or> \<not> P (hd xs) \<Longrightarrow> dropWhile P xs = xs"
  by (cases xs) auto

lemma trim_ends:
  "trim s = [] \<or> (\<not> isWhiteSpace (hd (trim s)) \<and> \<not> isWhiteSpace (last (trim s)))"
proof (cases "trim s = []")
  case True
  then show ?thesis by simp
next
  case False
  define A where "A = dropWhile isWhiteSpace s"
  define B where "B = dropWhile isWhiteSpace (rev A)"
  have t: "trim s = rev B" by (simp add: trim_def A_def B_def)
  with False have B: "B \<noteq> []" by simp
  have A: "A \<noteq> []"
  proof
    assume "A = []"
    then have "B = []" by (simp add: B_def)
    with B show False ..
  qed
  have hdB: "\<not> isWhiteSpace (hd B)" using B unfolding B_def by (rule hd_dropWhile)
  have hdA: "\<not> isWhiteSpace (hd A)" using A unfolding A_def by (rule hd_dropWhile)
  have "rev A = takeWhile isWhiteSpace (rev A) @ B"
    by (simp add: B_def)
  then have "last (rev A) = last B" using B by (metis last_appendR)
  then have "last B = hd A" using A by (simp add: last_rev)
  then show ?thesis using hdA hdB B by (simp add: t hd_rev last_rev)
qed

lemma trim_idem: "trim (trim s) = trim s"
proof (cases "trim s = []")
  case True
  then show ?thesis by (simp add: trim_def [of "[]"])
next
  case False
  with trim_ends [of s]
  have p: "\<not> isWhiteSpace (hd (trim s))" "\<not> isWhiteSpace (last (trim s))" by auto
  have 1: "dropWhile isWhiteSpace (trim s) = trim s"
    using p False by (intro dropWhile_id) simp
  have 2: "dropWhile isWhiteSpace (rev (trim s)) = rev (trim s)"
    using p False by (intro dropWhile_id) (simp add: hd_rev)
  show ?thesis unfolding trim_def [of "trim s"] 1 2 by simp
qed

lemma char_codes:
  "(of_char c :: nat) = 65 \<longleftrightarrow> c = CHR ''A''" "(of_char c :: nat) = 97 \<longleftrightarrow> c = CHR ''a''"
  "(of_char c :: nat) = 66 \<longleftrightarrow> c = CHR ''B''" "(of_char c :: nat) = 98 \<longleftrightarrow> c = CHR ''b''"
  "(of_char c :: nat) = 67 \<longleftrightarrow> c = CHR ''C''" "(of_char c :: nat) = 99 \<longleftrightarrow> c = CHR ''c''"
  "(of_char c :: nat) = 68 \<longleftrightarrow> c = CHR ''D''" "(of_char c :: nat) = 100 \<longleftrightarrow> c = CHR ''d''"
  "(of_char c :: nat) = 69 \<longleftrightarrow> c = CHR ''E''" "(of_char c :: nat) = 101 \<longleftrightarrow> c = CHR ''e''"
  "(of_char c :: nat) = 70 \<longleftrightarrow> c = CHR ''F''" "(of_char c :: nat) = 102 \<longleftrightarrow> c = CHR ''f''"
  "(of_char c :: nat) = 71 \<longleftrightarrow> c = CHR ''G''" "(of_char c :: nat) = 103 \<longleftrightarrow> c = CHR ''g''"
  by (auto intro: of_char_eqI [where 'a = nat])

lemma of_char_toLowerCaseChar:
  "(of_char (toLowerCaseChar c) :: nat) =
    (if (65 \<le> (of_char c :: nat) \<and> (of_char c :: nat) \<le> 90)
        \<or> (192 \<le> (of_char c :: nat) \<and> (of_char c :: nat) \<le> 222 \<and> (of_char c :: nat) \<noteq> 215)
     then of_char c + 32 else of_char c)"
  by (simp add: toLowerCaseChar_def Let_def)

lemma toLowerCaseChar_b: "toLowerCaseChar c = CHR ''b'' \<longleftrightarrow> c = CHR ''b'' \<or> c = CHR ''B''"
proof -
  have "toLowerCaseChar c = CHR ''b''
      \<longleftrightarrow> (of_char (toLowerCaseChar c) :: nat) = of_char (CHR ''b'')"
    by (simp only: of_char_eq_iff)
  also have "\<dots> \<longleftrightarrow> (of_char c :: nat) = 98 \<or> (of_char c :: nat) = 66"
    unfolding of_char_toLowerCaseChar by (auto split: if_splits)
  finally show ?thesis by (auto simp: char_codes)
qed

lemma toLowerCase_b: "toLowerCase t = ''b'' \<longleftrightarrow> t = ''b'' \<or> t = ''B''"
  by (auto simp: toLowerCase_def map_eq_Cons_conv toLowerCaseChar_b)

lemma toUpperCaseChar_single:
  "toUpperCaseChar c = [d] \<longleftrightarrow>
    (of_char d :: nat) =
      (if (97 \<le> (of_char c :: nat) \<and> (of_char c :: nat) \<le> 122)
          \<or> (224 \<le> (of_char c :: nat) \<and> (of_char c :: nat) \<le> 254 \<and> (of_char c :: nat) \<noteq> 247)
       then of_char c - 32 else of_char c) \<and> (of_char c :: nat) \<noteq> 223"
proof -
  have e: "\<And>x. (x = d) = ((of_char x :: nat) = of_char d)" by simp
  show ?thesis
    unfolding toUpperCaseChar_def Let_def
    by (auto simp: e simp del: of_char_eq_iff)
qed

lemma toUpperCaseChar_ascii_upper:
  assumes "65 \<le> (of_char d :: nat)" "(of_char d :: nat) \<le> 90"
  shows "toUpperCaseChar c = [d]
    \<longleftrightarrow> (of_char c :: nat) = of_char d \<or> (of_char c :: nat) = of_char d + 32"
  unfolding toUpperCaseChar_single using assms by (auto split: if_splits)

lemma toUpperCaseChar_letters:
  "toUpperCaseChar c = ''A'' \<longleftrightarrow> c = CHR ''A'' \<or> c = CHR ''a''"
  "toUpperCaseChar c = ''B'' \<longleftrightarrow> c = CHR ''B'' \<or> c = CHR ''b''"
  "toUpperCaseChar c = ''C'' \<longleftrightarrow> c = CHR ''C'' \<or> c = CHR ''c''"
  "toUpperCaseChar c = ''D'' \<longleftrightarrow> c = CHR ''D'' \<or> c = CHR ''d''"
  "toUpperCaseChar c = ''E'' \<longleftrightarrow> c = CHR ''E'' \<or> c = CHR ''e''"
  "toUpperCaseChar c = ''F'' \<longleftrightarrow> c = CHR ''F'' \<or> c = CHR ''f''"
  "toUpperCaseChar c = ''G'' \<longleftrightarrow> c = CHR ''G'' \<or> c = CHR ''g''"
  by (simp_all add: toUpperCaseChar_ascii_upper char_codes)

lemma toUpperCaseChar_length: "length (toUpperCaseChar c) = 1 \<or> toUpperCaseChar c = ''SS''"
  by (simp add: toUpperCaseChar_def Let_def)

section \<open>Properties of validateNotes\<close>

lemma getSuggestions_own:
  assumes "t \<notin> set objectPrototypeKeys"
  shows "getSuggestions t =
    Inr (if t = ''B'' then [''Bb'', ''Bb'', ''A'', ''C'']
         else if t = ''b'' then [''Bb'']
         else if t = ''Db'' then [''D'', ''C'']
         else if t = ''Eb'' then [''E'', ''D'']
         else if t = ''Gb'' then [''G'', ''F'']
         else if t = ''Ab'' then [''A'', ''G'']
         else SUPPORTED_NOTES)"
proof -
  have "''b'' \<notin> set objectPrototypeKeys"
    by (simp add: objectPrototypeKeys_def)
  with assms show ?thesis
    by (simp add: getSuggestions_def noteMapGet_def noteMap_def toLowerCase_b SUPPORTED_NOTES_def)
qed

lemma isSupported_normalizeNote: "isSupported (normalizeNote n) = isSupported n"
  by (simp add: isSupported_def normalizeNote_def trim_idem)

lemma filter_enumerate_Nil:
  "(filter (\<lambda>(i, n). \<not> P n) (enumerate k xs) = []) = (\<forall>n \<in> set xs. P n)"
  by (induction xs arbitrary: k) auto

lemma validateNotes_loop_generic:
  assumes "\<forall>n \<in> set ns. getSuggestions (trim n) = Inr (f (trim n))"
  shows "validateNotes_loop i ns =
    Inr (map (\<lambda>(j, n). unsupportedNoteError n j (f (trim n)))
          (filter (\<lambda>(j, n). \<not> isSupported n) (enumerate i ns)))"
  using assms
proof (induction ns arbitrary: i)
  case Nil
  show ?case by simp
next
  case (Cons n rest)
  then have rest: "validateNotes_loop (Suc i) rest =
    Inr (map (\<lambda>(j, n). unsupportedNoteError n j (f (trim n)))
          (filter (\<lambda>(j, n). \<not> isSupported n) (enumerate (Suc i) rest)))"
    by simp
  from Cons.prems have sg: "getSuggestions (trim n) = Inr (f (trim n))" by simp
  show ?case
    by (simp add: isSupported_normalizeNote Let_def rest) (simp add: normalizeNote_def sg rest)
qed

lemma validateNotes_loop_own:
  assumes "\<forall>n \<in> set ns. trim n \<notin> set objectPrototypeKeys"
  shows "validateNotes_loop i ns =
    Inr (map (\<lambda>(j, n). unsupportedNoteError n j
               (if trim n = ''B'' then [''Bb'', ''Bb'', ''A'', ''C'']
                else if trim n = ''b'' then [''Bb'']
                else if trim n = ''Db'' then [''D'', ''C'']
                else if trim n = ''Eb'' then [''E'', ''D'']
                else if trim n = ''Gb'' then [''G'', ''F'']
                else if trim n = ''Ab'' then [''A'', ''G'']
                else SUPPORTED_NOTES))
          (filter (\<lambda>(j, n). \<not> isSupported n) (enumerate i ns)))"
  by (rule validateNotes_loop_generic) (use assms getSuggestions_own in blast)

text \<open>
  Claim C7, as stated, fails at the token \<open>B\<close>: the code first adds \<open>Bb\<close> for a token that
  is \<open>B\<close> in either case and then, the token being a key of the table, the entry of the table
  as well, where the claim gives \<open>Bb\<close> alone.
\<close>

theorem validateNotes_B_counterexample:
  "validateNotes [''B''] =
     Inr \<lparr>isValid = False,
          errors = [unsupportedNoteError ''B'' 0 [''Bb'', ''Bb'', ''A'', ''C'']],
          warnings = []\<rparr>
   \<and> [''Bb'', ''Bb'', ''A'', ''C''] \<noteq> specSuggestions ''B''"
  by (simp add: validateNotes_def isSupported_def normalizeNote_def trim_def isWhiteSpace_def
      SUPPORTED_NOTES_def getSuggestions_def noteMapGet_def noteMap_def toLowerCase_b
      specSuggestions_def)

text \<open>
  Claim C7, amended. When no token, trimmed, names a property that every object inherits,
  \<^const>\<open>validateNotes\<close> returns one \<open>UNSUPPORTED_NOTE\<close> error for each position holding an
  unsupported note, in order, with the 0-based index of the token as its position and with the
  suggestions: \<open>Bb, Bb, A, C\<close> for \<open>B\<close>; \<open>Bb\<close> for \<open>b\<close>; the entry of the table for
  \<open>Db\<close>, \<open>Eb\<close>, \<open>Gb\<close>, \<open>Ab\<close>; the seven supported names otherwise (the token compared
  after trimming). There are no warnings, and the result is valid exactly when every token is
  supported.
\<close>

theorem validateNotes_errors:
  assumes "\<forall>n \<in> set ns. trim n \<notin> set objectPrototypeKeys"
  shows "validateNotes ns =
    Inr \<lparr>isValid = (\<forall>n \<in> set ns. isSupported n),
         errors = map (\<lambda>(i, n). unsupportedNoteError n i
                    (if trim n = ''B'' then [''Bb'', ''Bb'', ''A'', ''C'']
                     else if trim n = ''b'' then [''Bb'']
                     else if trim n = ''Db'' then [''D'', ''C'']
                     else if trim n = ''Eb'' then [''E'', ''D'']
                     else if trim n = ''Gb'' then [''G'', ''F'']
                     else if trim n = ''Ab'' then [''A'', ''G'']
                     else SUPPORTED_NOTES))
                  (filter (\<lambda>(i, n). \<not> isSupported n) (enumerate 0 ns)),
         warnings = []\<rparr>"
  unfolding validateNotes_def validateNotes_loop_own [OF assms]
  by (simp add: filter_enumerate_Nil)

theorem validateNotes_errors_witness:
  "trim ''F'' \<notin> set objectPrototypeKeys \<and> trim ''b'' \<notin> set objectPrototypeKeys
   \<and> trim '' Db '' \<notin> set objectPrototypeKeys \<and> trim ''X'' \<notin> set objectPrototypeKeys
   \<and> validateNotes [''F'', ''b'', '' Db '', ''X''] =
     Inr \<lparr>isValid = False,
          errors = [unsupportedNoteError ''b'' 1 [''Bb''],
                    unsupportedNoteError '' Db '' 2 [''D'', ''C''],
                    unsupportedNoteError ''X'' 3 SUPPORTED_NOTES],
          warnings = []\<rparr>"
proof -
  have t: "trim ''F'' = ''F''" "trim ''b'' = ''b''" "trim '' Db '' = ''Db''" "trim ''X'' = ''X''"
    by (simp_all add: trim_def isWhiteSpace_def)
  have h: "\<forall>n \<in> set [''F'', ''b'', '' Db '', ''X'']. trim n \<notin> set objectPrototypeKeys"
    by (simp add: t objectPrototypeKeys_def)
  show ?thesis
    using h validateNotes_errors [OF h]
    by (simp add: t isSupported_def normalizeNote_def SUPPORTED_NOTES_def eval_nat_numeral)
qed

text \<open>A token naming an inherited property ends \<^const>\<open>validateNotes\<close> with a \<open>TypeError\<close>.\<close>

lemma validateNotes_inherited_property: "validateNotes [''toString''] = Inl TypeError"
  by code_simp

section \<open>Properties of the export file names\<close>

lemma isDigit_digitChar: "isDigit (digitChar d)"
  by (simp add: isDigit_def digitChar_def) 

lemma showNat_digits: "list_all isDigit (showNat n)"
  by (induction n rule: showNat.induct) (subst showNat.simps, simp add: isDigit_digitChar)

lemma showNat_length: "0 < k \<Longrightarrow> n < 10 ^ k \<Longrightarrow> length (showNat n) \<le> k"
proof (induction n arbitrary: k rule: showNat.induct)
  case (1 n)
  show ?case
  proof (cases "n < 10")
    case True
    with 1(2) show ?thesis by (subst showNat.simps) simp
  next
    case False
    with 1(2,3) have k: "1 < k" by (cases "k = 1") auto
    then obtain k' where k': "k = Suc k'" "0 < k'" by (cases k) auto
    from 1(3) k' have "n div 10 < 10 ^ k'" by (simp add: less_mult_imp_div_less mult.commute)
    with 1(1) [OF False k'(2)] have "length (showNat (n div 10)) \<le> k'" by simp
    with False k' show ?thesis by (subst showNat.simps) simp
  qed
qed

lemma padZero_length: "0 < k \<Longrightarrow> n < 10 ^ k \<Longrightarrow> length (padZero k n) = k"
  using showNat_length [of k n] by (simp add: padZero_def)

lemma isDigit_zero: "isDigit (CHR ''0'')"
  by (simp add: isDigit_def)

lemma padZero_digits: "list_all isDigit (padZero k n)"
  using showNat_digits [of n] by (auto simp: padZero_def list_all_iff isDigit_zero)

lemma isDigit_plain:
  assumes "isDigit c"
  shows "c \<noteq> CHR '':''" "c \<noteq> CHR ''-''" "toLowerCaseChar c = c"
  using assms by (auto simp: isDigit_def toLowerCaseChar_def Let_def)

lemma digits_filter:
  "list_all isDigit s \<Longrightarrow> filter (\<lambda>c. c \<noteq> CHR '':'' \<and> c \<noteq> CHR ''-'') s = s"
  by (induction s) (auto simp: isDigit_plain)

lemma digits_lower: "list_all isDigit s \<Longrightarrow> toLowerCase s = s"
  by (induction s) (auto simp: isDigit_plain toLowerCase_def)

lemma toLowerCase_append: "toLowerCase (a @ b) = toLowerCase a @ toLowerCase b"
  by (simp add: toLowerCase_def)

lemma timestamp_compact:
  assumes "validDate d" "0 \<le> year d" "year d \<le> 9999"
  shows "timestamp d =
    padZero 4 (nat (year d)) @ padZero 2 (month d) @ padZero 2 (day d) @ ''t''
    @ padZero 2 (hours d) @ padZero 2 (minutes d) @ padZero 2 (seconds d)"
proof -
  from assms have l:
    "length (padZero 4 (nat (year d))) = 4" "length (padZero 2 (month d)) = 2"
    "length (padZero 2 (day d)) = 2" "length (padZero 2 (hours d)) = 2"
    "length (padZero 2 (minutes d)) = 2" "length (padZero 2 (seconds d)) = 2"
    by (simp_all add: validDate_def padZero_length)
  have T: "toLowerCaseChar (CHR ''T'') = CHR ''t''" by code_simp
  have C: "\<And>c s. toLowerCase (c # s) = toLowerCaseChar c # toLowerCase s"
    by (simp add: toLowerCase_def)
  from assms l show ?thesis
    by (simp add: timestamp_def toISOString_def digits_filter digits_lower padZero_digits
        toLowerCase_append T C)
qed

lemma cleanTitle_My_Song: "cleanTitle 50 ''My Song!'' = ''my-song''"
  by code_simp

lemma set_trim: "set (trim s) \<subseteq> set s"
  by (auto simp: trim_def dest!: set_dropWhileD)

lemma cleanTitle_special:
  assumes "\<forall>c \<in> set t. \<not> isWordChar c \<and> \<not> isWhiteSpace c \<and> c \<noteq> CHR ''-''"
  shows "cleanTitle n t = []"
proof -
  from assms set_trim [of t] have "removeSpecial (trim t) = []"
    by (auto simp: removeSpecial_def filter_empty_conv)
  then show ?thesis
    by (simp add: cleanTitle_def stripEdgeHyphens_def toLowerCase_def substring0_def)
qed

text \<open>
  Claim C8, as stated, fails: the time stamp is not numeric. The code removes the colons and
  hyphens of the first 19 characters of the ISO date and lower-cases the rest, so the \<open>T\<close>
  between date and time stays, as \<open>t\<close>.
\<close>

theorem generateFilename_timestamp_counterexample:
  "generateFilename
     \<lparr>year = 2024, month = 1, day = 15, hours = 10, minutes = 30, seconds = 45,
      milliseconds = 123\<rparr> ''My Song!''
     = ''my-song-20240115t103045.png''
   \<and> \<not> specFilenamePattern ''my-song''
       (generateFilename
          \<lparr>year = 2024, month = 1, day = 15, hours = 10, minutes = 30, seconds = 45,
           milliseconds = 123\<rparr> ''My Song!'')"
  by code_simp

text \<open>
  Claim C8, amended. At a date \<open>d\<close> with a year from 0 to 9999, both \<^const>\<open>generateFilename\<close>
  and the export manager's function (default configuration, format \<open>png\<close>) give, for the title
  \<open>My Song!\<close>, the slug \<open>my-song\<close>, a hyphen, the time stamp and \<open>.png\<close>; for a title all of
  whose characters are special (neither word characters, nor white space, nor hyphens) they give
  \<open>ocarina-chart\<close>, a hyphen, the time stamp and \<open>.png\<close>. The time stamp is
  \<open>YYYYMMDD\<close>, the letter \<open>t\<close>, and \<open>HHMMSS\<close>: fifteen characters, all but the \<open>t\<close>
  decimal digits.
\<close>

theorem generateFilename_format:
  assumes "validDate d" and "0 \<le> year d" and "year d \<le> 9999"
    and "\<forall>c \<in> set t. \<not> isWordChar c \<and> \<not> isWhiteSpace c \<and> c \<noteq> CHR ''-''"
  shows "generateFilename d ''My Song!'' = ''my-song-'' @ timestamp d @ ''.png''
    \<and> exportGenerateFilename DEFAULT_EXPORT_CONFIG d (TitleString ''My Song!'') ''png''
        = ''my-song-'' @ timestamp d @ ''.png''
    \<and> generateFilename d t = ''ocarina-chart-'' @ timestamp d @ ''.png''
    \<and> exportGenerateFilename DEFAULT_EXPORT_CONFIG d (TitleString t) ''png''
        = ''ocarina-chart-'' @ timestamp d @ ''.png''
    \<and> timestamp d =
        padZero 4 (nat (year d)) @ padZero 2 (month d) @ padZero 2 (day d) @ ''t''
        @ padZero 2 (hours d) @ padZero 2 (minutes d) @ padZero 2 (seconds d)
    \<and> length (padZero 4 (nat (year d))) = 4 \<and> length (padZero 2 (month d)) = 2
    \<and> length (padZero 2 (day d)) = 2 \<and> length (padZero 2 (hours d)) = 2
    \<and> length (padZero 2 (minutes d)) = 2 \<and> length (padZero 2 (seconds d)) = 2
    \<and> list_all isDigit (padZero 4 (nat (year d)) @ padZero 2 (month d) @ padZero 2 (day d)
          @ padZero 2 (hours d) @ padZero 2 (minutes d) @ padZero 2 (seconds d))"
proof -
  have a: "generateFilename d ''My Song!'' = ''my-song-'' @ timestamp d @ ''.png''"
    by (simp add: generateFilename_def cleanTitle_My_Song)
  have b: "exportGenerateFilename DEFAULT_EXPORT_CONFIG d (TitleString ''My Song!'') ''png''
        = ''my-song-'' @ timestamp d @ ''.png''"
    by (simp add: exportGenerateFilename_def DEFAULT_EXPORT_CONFIG_def cleanTitle_My_Song)
  have c: "generateFilename d t = ''ocarina-chart-'' @ timestamp d @ ''.png''"
    using assms(4) by (simp add: generateFilename_def cleanTitle_special)
  have e: "exportGenerateFilename DEFAULT_EXPORT_CONFIG d (TitleString t) ''png''
        = ''ocarina-chart-'' @ timestamp d @ ''.png''"
    using assms(4)
    by (simp add: exportGenerateFilename_def DEFAULT_EXPORT_CONFIG_def cleanTitle_special)
  have f: "timestamp d =
        padZero 4 (nat (year d)) @ padZero 2 (month d) @ padZero 2 (day d) @ ''t''
        @ padZero 2 (hours d) @ padZero 2 (minutes d) @ padZero 2 (seconds d)"
    using assms(1-3) by (rule timestamp_compact)
  have g: "length (padZero 4 (nat (year d))) = 4 \<and> length (padZero 2 (month d)) = 2
    \<and> length (padZero 2 (day d)) = 2 \<and> length (padZero 2 (hours d)) = 2
    \<and> length (padZero 2 (minutes d)) = 2 \<and> length (padZero 2 (seconds d)) = 2
    \<and> list_all isDigit (padZero 4 (nat (year d)) @ padZero 2 (month d) @ padZero 2 (day d)
          @ padZero 2 (hours d) @ padZero 2 (minutes d) @ padZero 2 (seconds d))"
    using assms(1-3) by (simp add: validDate_def padZero_length padZero_digits)
  from a b c e f g show ?thesis by blast
qed

theorem generateFilename_format_witness:
  "validDate \<lparr>year = 2024, month = 1, day = 15, hours = 10, minutes = 30, seconds = 45,
      milliseconds = 123\<rparr>
   \<and> \<not> isWordChar (CHR ''!'') \<and> \<not> isWhiteSpace (CHR ''!'') \<and> CHR ''!'' \<noteq> CHR ''-''
   \<and> generateFilename \<lparr>year = 2024, month = 1, day = 15, hours = 10, minutes = 30,
        seconds = 45, milliseconds = 123\<rparr> ''My Song!'' = ''my-song-20240115t103045.png''
   \<and> generateFilename \<lparr>year = 2024, month = 1, day = 15, hours = 10, minutes = 30,
        seconds = 45, milliseconds = 123\<rparr> ''!!!'' = ''ocarina-chart-20240115t103045.png''
   \<and> exportGenerateFilename DEFAULT_EXPORT_CONFIG \<lparr>year = 2024, month = 1, day = 15,
        hours = 10, minutes = 30, seconds = 45, milliseconds = 123\<rparr> (TitleString ''!!!'') ''png''
       = ''ocarina-chart-20240115t103045.png''"
proof -
  let ?d = "\<lparr>year = 2024, month = 1, day = 15, hours = 10, minutes = 30, seconds = 45,
      milliseconds = 123\<rparr>"
  have h: "validDate ?d" "0 \<le> year ?d" "year ?d \<le> 9999"
    by (simp_all add: validDate_def)
  have s: "\<not> isWordChar (CHR ''!'')" "\<not> isWhiteSpace (CHR ''!'')" "CHR ''!'' \<noteq> CHR ''-''"
    by (simp_all add: isWordChar_def isWhiteSpace_def)
  then have s': "\<forall>c \<in> set ''!!!''. \<not> isWordChar c \<and> \<not> isWhiteSpace c \<and> c \<noteq> CHR ''-''"
    by simp
  have ts: "timestamp ?d = ''20240115t103045''"
    by code_simp
  note r = generateFilename_format [OF h s', unfolded ts]
  show ?thesis
    using h(1) s r by simp
qed

section \<open>Properties of the parser\<close>

lemma trim_Nil_iff: "trim s = [] \<longleftrightarrow> (\<forall>c \<in> set s. isWhiteSpace c)"
proof
  assume "trim s = []"
  then have "dropWhile isWhiteSpace (rev (dropWhile isWhiteSpace s)) = []"
    by (simp add: trim_def)
  then have "\<forall>c \<in> set (dropWhile isWhiteSpace s). isWhiteSpace c"
    by (simp add: dropWhile_eq_Nil_conv)
  then have "dropWhile isWhiteSpace s = []"
    using hd_dropWhile [of isWhiteSpace s] by (cases "dropWhile isWhiteSpace s") auto
  then show "\<forall>c \<in> set s. isWhiteSpace c"
    by (simp add: dropWhile_eq_Nil_conv)
next
  assume "\<forall>c \<in> set s. isWhiteSpace c"
  then show "trim s = []" by (auto simp: trim_def dest: set_dropWhileD)
qed

lemma trim_Nil [simp]: "trim [] = []"
  by (simp add: trim_def)

lemma splitLines_not_Nil: "splitLines s \<noteq> []"
  by (induction s rule: splitLines.induct) (auto split: list.splits)

lemma splitLines_chars: "l \<in> set (splitLines s) \<Longrightarrow> x \<in> set l \<Longrightarrow> x \<in> set s"
proof (induction s arbitrary: l rule: splitLines.induct)
  case 1
  then show ?case by simp
next
  case (2 c)
  then show ?case by (auto split: if_splits)
next
  case (3 c d cs)
  show ?case
  proof (cases "c = CHR 0x0A")
    case True
    with 3 show ?thesis by auto
  next
    case nl: False
    show ?thesis
    proof (cases "c = CHR 0x0D \<and> d = CHR 0x0A")
      case True
      with 3 nl show ?thesis by auto
    next
      case False
      obtain h t where ht: "splitLines (d # cs) = h # t"
        using splitLines_not_Nil [of "d # cs"] by (cases "splitLines (d # cs)") auto
      with "3.prems"(1) nl False have "l = c # h \<or> l \<in> set t" by auto
      then show ?thesis
      proof
        assume "l = c # h"
        with "3.prems"(2) have "x = c \<or> x \<in> set h" by auto
        with "3.IH"(3) [OF nl False, of h] ht show ?thesis by auto
      next
        assume "l \<in> set t"
        with "3.IH"(3) [OF nl False, of l] "3.prems"(2) ht show ?thesis by auto
      qed
    qed
  qed
qed

lemma preprocessInput_blank:
  assumes "trim input = []"
  shows "\<forall>l \<in> set (preprocessInput input). l = []"
proof
  fix l assume "l \<in> set (preprocessInput input)"
  then obtain r where r: "r \<in> set (splitLines input)" "l = trim r"
    by (auto simp: preprocessInput_def)
  with splitLines_chars [of r input] assms have "\<forall>c \<in> set r. isWhiteSpace c"
    by (auto simp: trim_Nil_iff)
  with r show "l = []" by (simp add: trim_Nil_iff)
qed



text \<open>
  Claim C3. \<^const>\<open>parseSong\<close> returns a song exactly when \<^const>\<open>validateInput\<close> reports the
  input valid, which is exactly when validation collected no error; otherwise it throws an error
  whose message is \<open>Parsing failed: \<close> followed by the messages of all collected errors,
  joined with a comma and a space. No song is returned beside errors.
\<close>

theorem parseSong_all_or_nothing:
  "((\<exists>song. parseSong config now input = Inr song) \<longleftrightarrow> isValid (validateInput config input))
   \<and> (isValid (validateInput config input) \<longleftrightarrow> errors (validateInput config input) = [])
   \<and> (\<not> isValid (validateInput config input) \<longrightarrow>
        parseSong config now input =
          Inl (Error (''Parsing failed: ''
                 @ join '', '' (map message (errors (validateInput config input))))))"
  by (auto simp: parseSong_def Let_def validateInput_def)

theorem parseSong_all_or_nothing_witness:
  "(\<exists>song. parseSong DEFAULT_CONFIG
       \<lparr>year = 2024, month = 1, day = 15, hours = 10, minutes = 30, seconds = 45,
        milliseconds = 123\<rparr> ''Title\<newline>F G A'' = Inr song)
   \<and> \<not> isValid (validateInput DEFAULT_CONFIG ''Test\<newline>F X'')
   \<and> parseSong DEFAULT_CONFIG
       \<lparr>year = 2024, month = 1, day = 15, hours = 10, minutes = 30, seconds = 45,
        milliseconds = 123\<rparr> ''Test\<newline>F X''
       = Inl (Error ''Parsing failed: Unsupported note 'X' at line 2, position 2'')"
proof -
  have v1: "isValid (validateInput DEFAULT_CONFIG ''Title\<newline>F G A'')"
    by code_simp
  have v2: "\<not> isValid (validateInput DEFAULT_CONFIG ''Test\<newline>F X'')"
    by code_simp
  have m: "map message (errors (validateInput DEFAULT_CONFIG ''Test\<newline>F X''))
      = [''Unsupported note 'X' at line 2, position 2'']"
    by code_simp
  show ?thesis
    using v1 v2
      parseSong_all_or_nothing [of DEFAULT_CONFIG _ "''Title\<newline>F G A''"]
      parseSong_all_or_nothing [of DEFAULT_CONFIG _ "''Test\<newline>F X''",
        unfolded m]
    by simp
qed




section \<open>Tokens of a note line\<close>

lemma splitSeparators_run:
  assumes "seps \<noteq> []" and "\<forall>c \<in> set seps. isSeparator c"
  shows "splitSeparators (seps @ b) = [] # splitSeparators (dropWhile isSeparator b)"
proof -
  from assms obtain c r where cr: "seps = c # r" by (cases seps) auto
  with assms have "isSeparator c" "\<forall>x \<in> set r. isSeparator x" by auto
  then show ?thesis by (simp add: cr dropWhile_append2)
qed

lemma splitSeparators_runs:
  assumes "seps \<noteq> []" and "\<forall>c \<in> set seps. isSeparator c"
    and "seps' \<noteq> []" and "\<forall>c \<in> set seps'. isSeparator c"
  shows "splitSeparators (a @ seps @ b) = splitSeparators (a @ seps' @ b)"
proof (induction a rule: splitSeparators.induct)
  case 1
  show ?case by (simp add: splitSeparators_run assms)
next
  case (2 c cs)
  show ?case
  proof (cases "isSeparator c")
    case False
    with 2 show ?thesis by simp
  next
    case True
    show ?thesis
    proof (cases "\<forall>x \<in> set cs. isSeparator x")
      case all: True
      then have "dropWhile isSeparator (cs @ seps @ b) = dropWhile isSeparator b"
        "dropWhile isSeparator (cs @ seps' @ b) = dropWhile isSeparator b"
        using assms by (simp_all add: dropWhile_append2)
      with True show ?thesis by simp
    next
      case False
      then have "dropWhile isSeparator (cs @ seps @ b) = dropWhile isSeparator cs @ seps @ b"
        "dropWhile isSeparator (cs @ seps' @ b) = dropWhile isSeparator cs @ seps' @ b"
        by (auto simp: dropWhile_append1)
      with True 2 show ?thesis by simp
    qed
  qed
qed

lemma convertNotes_fst:
  "fst (convertNotes config ns) =
    map (\<lambda>n. if toUpperCase n = ''B'' \<and> autoConvertB config then ''Bb'' else n) ns"
  by (induction ns) (simp_all add: split_def Let_def)

lemma convertNotes_snd:
  "snd (convertNotes config ns) =
    concat (map (\<lambda>n. if toUpperCase n = ''B'' \<and> autoConvertB config
                      then [conversionWarning] else []) ns)"
  by (induction ns) (simp_all add: split_def Let_def)

lemma parseNotesFromLine_map:
  "parseNotesFromLine config l =
    map (\<lambda>t. let upperNote = toUpperCase
                   (if toUpperCase t = ''B'' \<and> autoConvertB config then ''Bb'' else t)
             in if upperNote = ''BB'' then ''Bb''
                else if upperNote \<in> set SUPPORTED_NOTES then upperNote
                else (if toUpperCase t = ''B'' \<and> autoConvertB config then ''Bb'' else t))
      (filter (\<lambda>n. length n > 0) (map trim (splitSeparators l)))"
  by (simp add: parseNotesFromLine_def Let_def split_def convertNotes_fst o_def)

lemma validateNote_warnings:
  "filter (\<lambda>w. wtype w \<noteq> NOTE_CONVERSION) (warnings (validateNote config n k p)) = []"
  by (simp add: validateNote_def Let_def willConvertWarning_def)

lemma validateNoteLine_warnings:
  assumes "trim l \<noteq> []"
  shows "warnings (validateNoteLine config l k) =
    concat (map (\<lambda>i. if toUpperCase (filter (\<lambda>n. length n > 0) (map trim (splitSeparators l)) ! i)
                          = ''B'' \<and> autoConvertB config
                       then [willConvertWarning k (i + 1)] else [])
            [0..<length (filter (\<lambda>n. length n > 0) (map trim (splitSeparators l)))])"
  using assms
  by (simp add: validateNoteLine_def Let_def validateNote_warnings o_def)

lemma raw_examples:
  "filter (\<lambda>n. length n > 0) (map trim (splitSeparators ''F,G|A-Bb'')) = [''F'', ''G'', ''A'', ''Bb'']"
  "filter (\<lambda>n. length n > 0) (map trim (splitSeparators ''F G A Bb'')) = [''F'', ''G'', ''A'', ''Bb'']"
  by code_simp+

lemma toUpperCase_examples:
  "toUpperCase ''F'' = ''F''" "toUpperCase ''G'' = ''G''" "toUpperCase ''A'' = ''A''"
  "toUpperCase ''Bb'' = ''BB''" "toUpperCase ''X'' = ''X''"
  by code_simp+

text \<open>
  Claim C9. The note lines \<open>F,G|A-Bb\<close> and \<open>F G A Bb\<close> give the same tokens
  \<open>F, G, A, Bb\<close>; a run of separators (white space, comma, pipe, hyphen) splits a line as a
  single space does; and for a non-blank line the parsed notes are as many as the raw tokens of
  the validation pass, the conversion warning at position \<open>i + 1\<close> being reported exactly when
  the raw token \<open>i\<close> is a \<open>B\<close> under automatic conversion, where the parsed note \<open>i\<close> is
  \<open>Bb\<close>.
\<close>

theorem tokenization_equivalence:
  "parseNotesFromLine config ''F,G|A-Bb'' = [''F'', ''G'', ''A'', ''Bb'']
   \<and> parseNotesFromLine config ''F G A Bb'' = [''F'', ''G'', ''A'', ''Bb'']
   \<and> filter (\<lambda>n. length n > 0) (map trim (splitSeparators ''F,G|A-Bb''))
       = [''F'', ''G'', ''A'', ''Bb'']
   \<and> filter (\<lambda>n. length n > 0) (map trim (splitSeparators ''F G A Bb''))
       = [''F'', ''G'', ''A'', ''Bb'']
   \<and> (seps \<noteq> [] \<and> (\<forall>c \<in> set seps. isSeparator c) \<longrightarrow>
        splitSeparators (a @ seps @ b) = splitSeparators (a @ '' '' @ b))
   \<and> (trim l \<noteq> [] \<longrightarrow>
        (let rawNotes = filter (\<lambda>n. length n > 0) (map trim (splitSeparators l))
         in length (parseNotesFromLine config l) = length rawNotes
            \<and> (\<forall>i < length rawNotes.
                  (willConvertWarning k (i + 1) \<in> set (warnings (validateNoteLine config l k)))
                    = (toUpperCase (rawNotes ! i) = ''B'' \<and> autoConvertB config)
                  \<and> (toUpperCase (rawNotes ! i) = ''B'' \<and> autoConvertB config
                       \<longrightarrow> parseNotesFromLine config l ! i = ''Bb''))))"
proof -
  have p1: "parseNotesFromLine config ''F,G|A-Bb'' = [''F'', ''G'', ''A'', ''Bb'']"
    unfolding parseNotesFromLine_map raw_examples
    by (simp add: toUpperCase_examples SUPPORTED_NOTES_def)
  have p2: "parseNotesFromLine config ''F G A Bb'' = [''F'', ''G'', ''A'', ''Bb'']"
    unfolding parseNotesFromLine_map raw_examples
    by (simp add: toUpperCase_examples SUPPORTED_NOTES_def)
  have sp: "isSeparator (CHR '' '')" by (simp add: isSeparator_def isWhiteSpace_def)
  have run: "seps \<noteq> [] \<and> (\<forall>c \<in> set seps. isSeparator c) \<longrightarrow>
        splitSeparators (a @ seps @ b) = splitSeparators (a @ '' '' @ b)"
    using splitSeparators_runs [of seps "'' ''" a b] sp by simp
  have same: "trim l \<noteq> [] \<longrightarrow>
        (let rawNotes = filter (\<lambda>n. length n > 0) (map trim (splitSeparators l))
         in length (parseNotesFromLine config l) = length rawNotes
            \<and> (\<forall>i < length rawNotes.
                  (willConvertWarning k (i + 1) \<in> set (warnings (validateNoteLine config l k)))
                    = (toUpperCase (rawNotes ! i) = ''B'' \<and> autoConvertB config)
                  \<and> (toUpperCase (rawNotes ! i) = ''B'' \<and> autoConvertB config
                       \<longrightarrow> parseNotesFromLine config l ! i = ''Bb'')))"
  proof
    assume ne: "trim l \<noteq> []"
    define raw where "raw = filter (\<lambda>n. length n > 0) (map trim (splitSeparators l))"
    have w: "warnings (validateNoteLine config l k) =
      concat (map (\<lambda>i. if toUpperCase (raw ! i) = ''B'' \<and> autoConvertB config
                         then [willConvertWarning k (i + 1)] else []) [0..<length raw])"
      unfolding raw_def using ne by (rule validateNoteLine_warnings)
    have p: "parseNotesFromLine config l =
      map (\<lambda>t. let upperNote = toUpperCase
                   (if toUpperCase t = ''B'' \<and> autoConvertB config then ''Bb'' else t)
             in if upperNote = ''BB'' then ''Bb''
                else if upperNote \<in> set SUPPORTED_NOTES then upperNote
                else (if toUpperCase t = ''B'' \<and> autoConvertB config then ''Bb'' else t)) raw"
      unfolding raw_def by (rule parseNotesFromLine_map)
    have "length (parseNotesFromLine config l) = length raw
            \<and> (\<forall>i < length raw.
                  (willConvertWarning k (i + 1) \<in> set (warnings (validateNoteLine config l k)))
                    = (toUpperCase (raw ! i) = ''B'' \<and> autoConvertB config)
                  \<and> (toUpperCase (raw ! i) = ''B'' \<and> autoConvertB config
                       \<longrightarrow> parseNotesFromLine config l ! i = ''Bb''))"
      unfolding w p
      by (auto simp: willConvertWarning_def toUpperCase_examples Let_def)
    then show "let rawNotes = filter (\<lambda>n. length n > 0) (map trim (splitSeparators l))
         in length (parseNotesFromLine config l) = length rawNotes
            \<and> (\<forall>i < length rawNotes.
                  (willConvertWarning k (i + 1) \<in> set (warnings (validateNoteLine config l k)))
                    = (toUpperCase (rawNotes ! i) = ''B'' \<and> autoConvertB config)
                  \<and> (toUpperCase (rawNotes ! i) = ''B'' \<and> autoConvertB config
                       \<longrightarrow> parseNotesFromLine config l ! i = ''Bb''))"
      unfolding raw_def Let_def .
  qed
  from p1 p2 raw_examples run same show ?thesis by blast
qed

theorem tokenization_equivalence_witness:
  "'', |'' \<noteq> [] \<and> list_all isSeparator '', |''
   \<and> splitSeparators ''F, |G'' = splitSeparators ''F G''
   \<and> trim ''F b'' \<noteq> []
   \<and> willConvertWarning 2 2 \<in> set (warnings (validateNoteLine DEFAULT_CONFIG ''F b'' 2))
   \<and> parseNotesFromLine DEFAULT_CONFIG ''F b'' ! 1 = ''Bb''"
proof -
  have h1: "'', |'' \<noteq> []" by simp
  have h2: "list_all isSeparator '', |''"
    by (simp add: isSeparator_def isWhiteSpace_def)
  then have h2': "\<forall>c \<in> set '', |''. isSeparator c" by (simp add: list_all_iff)
  have h3: "trim ''F b'' \<noteq> []" by code_simp
  have raw: "filter (\<lambda>n. length n > 0) (map trim (splitSeparators ''F b'')) = [''F'', ''b'']"
    by code_simp
  have up: "toUpperCase ''b'' = ''B''" by code_simp
  have au: "autoConvertB DEFAULT_CONFIG" by (simp add: DEFAULT_CONFIG_def)
  note T = tokenization_equivalence [of DEFAULT_CONFIG "'', |''" "''F''" "''G''" "''F b''" 2]
  from T h1 h2' have r: "splitSeparators (''F'' @ '', |'' @ ''G'') = splitSeparators (''F'' @ '' '' @ ''G'')"
    by blast
  from T h3 have "let rawNotes = filter (\<lambda>n. length n > 0) (map trim (splitSeparators ''F b''))
         in length (parseNotesFromLine DEFAULT_CONFIG ''F b'') = length rawNotes
            \<and> (\<forall>i < length rawNotes.
                  (willConvertWarning 2 (i + 1)
                     \<in> set (warnings (validateNoteLine DEFAULT_CONFIG ''F b'' 2)))
                    = (toUpperCase (rawNotes ! i) = ''B'' \<and> autoConvertB DEFAULT_CONFIG)
                  \<and> (toUpperCase (rawNotes ! i) = ''B'' \<and> autoConvertB DEFAULT_CONFIG
                       \<longrightarrow> parseNotesFromLine DEFAULT_CONFIG ''F b'' ! i = ''Bb''))"
    by blast
  then have "\<forall>i < 2. (willConvertWarning 2 (i + 1)
                     \<in> set (warnings (validateNoteLine DEFAULT_CONFIG ''F b'' 2)))
                    = (toUpperCase ([''F'', ''b''] ! i) = ''B'' \<and> autoConvertB DEFAULT_CONFIG)
                  \<and> (toUpperCase ([''F'', ''b''] ! i) = ''B'' \<and> autoConvertB DEFAULT_CONFIG
                       \<longrightarrow> parseNotesFromLine DEFAULT_CONFIG ''F b'' ! i = ''Bb'')"
    unfolding raw Let_def by simp
  then have "(willConvertWarning 2 (1 + 1)
                     \<in> set (warnings (validateNoteLine DEFAULT_CONFIG ''F b'' 2)))
                    = (toUpperCase ([''F'', ''b''] ! 1) = ''B'' \<and> autoConvertB DEFAULT_CONFIG)
                  \<and> (toUpperCase ([''F'', ''b''] ! 1) = ''B'' \<and> autoConvertB DEFAULT_CONFIG
                       \<longrightarrow> parseNotesFromLine DEFAULT_CONFIG ''F b'' ! 1 = ''Bb'')"
    by (rule allE [where x = 1]) simp
  with up au have "willConvertWarning 2 2 \<in> set (warnings (validateNoteLine DEFAULT_CONFIG ''F b'' 2))
      \<and> parseNotesFromLine DEFAULT_CONFIG ''F b'' ! 1 = ''Bb''"
    by (simp add: eval_nat_numeral)
  with h1 h2 h3 r show ?thesis by simp
qed

section \<open>Validation of notes and lines\<close>

lemma toUpperCaseChar_not_Nil: "toUpperCaseChar c \<noteq> []"
  by (simp add: toUpperCaseChar_def Let_def)

lemma toUpperCase_Cons: "toUpperCase (c # cs) = toUpperCaseChar c @ toUpperCase cs"
  by (simp add: toUpperCase_def)

lemma toUpperCase_Nil_iff: "toUpperCase s = [] \<longleftrightarrow> s = []"
  by (cases s) (simp_all add: toUpperCase_def toUpperCaseChar_not_Nil)

lemma toUpperCaseChar_SS: "toUpperCaseChar c = ''SS'' \<or> (\<exists>d. toUpperCaseChar c = [d])"
  by (simp add: toUpperCaseChar_def Let_def)

lemma toUpperCase_B: "toUpperCase s = ''B'' \<longleftrightarrow> s = ''b'' \<or> s = ''B''"
proof
  assume u: "toUpperCase s = ''B''"
  then obtain c cs where s: "s = c # cs" by (cases s) (auto simp: toUpperCase_def)
  from toUpperCaseChar_SS [of c] show "s = ''b'' \<or> s = ''B''"
  proof
    assume "toUpperCaseChar c = ''SS''"
    with u s show ?thesis by (simp add: toUpperCase_Cons)
  next
    assume "\<exists>d. toUpperCaseChar c = [d]"
    then obtain d where d: "toUpperCaseChar c = [d]" ..
    with u s have "d = CHR ''B''" "toUpperCase cs = []" by (simp_all add: toUpperCase_Cons)
    with d s show ?thesis by (auto simp: toUpperCase_Nil_iff toUpperCaseChar_letters)
  qed
next
  assume "s = ''b'' \<or> s = ''B''"
  then show "toUpperCase s = ''B''"
    by (auto simp: toUpperCase_def toUpperCaseChar_letters)
qed

lemma toLowerCase_Nil_iff: "toLowerCase s = [] \<longleftrightarrow> s = []"
  by (simp add: toLowerCase_def)

lemma capitalised_supported:
  assumes "toUpperCase (take 1 x) @ toLowerCase (drop 1 x) \<in> set SUPPORTED_NOTES"
  shows "toUpperCase x \<in> set SUPPORTED_NOTES \<or> toUpperCase x = ''BB''"
proof (cases x)
  case Nil
  with assms show ?thesis by (simp add: toUpperCase_def toLowerCase_def SUPPORTED_NOTES_def)
next
  case (Cons c cs)
  with assms have m: "toUpperCaseChar c @ toLowerCase cs \<in> set SUPPORTED_NOTES"
    by (simp add: toUpperCase_def)
  from toUpperCaseChar_SS [of c] show ?thesis
  proof
    assume "toUpperCaseChar c = ''SS''"
    with m show ?thesis by (simp add: SUPPORTED_NOTES_def)
  next
    assume "\<exists>d. toUpperCaseChar c = [d]"
    then obtain d where d: "toUpperCaseChar c = [d]" ..
    with m have "(cs = [] \<and> [d] \<in> set SUPPORTED_NOTES) \<or> (d = CHR ''B'' \<and> toLowerCase cs = ''b'')"
      by (auto simp: SUPPORTED_NOTES_def toLowerCase_Nil_iff)
    then show ?thesis
    proof
      assume "cs = [] \<and> [d] \<in> set SUPPORTED_NOTES"
      with d Cons show ?thesis by (simp add: toUpperCase_def)
    next
      assume b: "d = CHR ''B'' \<and> toLowerCase cs = ''b''"
      then have "cs = ''b'' \<or> cs = ''B''" by (simp add: toLowerCase_b)
      then have "toUpperCase cs = ''B''" by (simp add: toUpperCase_B)
      with b d Cons show ?thesis by (simp add: toUpperCase_Cons)
    qed
  qed
qed

lemma validateNote_errors_cases:
  "errors (validateNote config n k p) =
    (if toUpperCase (take 1 n) @ toLowerCase (drop 1 n) \<in> set SUPPORTED_NOTES then []
     else if toUpperCase n = ''B'' then
       (if autoConvertB config then []
        else [\<lparr>etype = UNSUPPORTED_NOTE, message = unsupportedMessage n k p,
               line = Some k, position = Some p,
               suggestions = Some (''Use Bb instead of B for 4-hole ocarinas''
                                   # SUPPORTED_NOTES)\<rparr>])
     else [\<lparr>etype = UNSUPPORTED_NOTE, message = unsupportedMessage n k p,
            line = Some k, position = Some p,
            suggestions = Some [''Supported notes: '' @ join '', '' SUPPORTED_NOTES]\<rparr>])"
  by (simp add: validateNote_def Let_def)

lemma validateNote_error_fields:
  "e \<in> set (errors (validateNote config n k p)) \<Longrightarrow>
    etype e = UNSUPPORTED_NOTE \<and> line e = Some k \<and> position e = Some p"
  by (auto simp: validateNote_errors_cases split: if_splits)

text \<open>A parsed note that passes \<^const>\<open>validateNote\<close> is one of the seven names.\<close>

lemma parsed_note_supported:
  assumes x_def: "x = (if toUpperCase t = ''B'' \<and> autoConvertB config then ''Bb'' else t)"
    and m_def: "m = (let upperNote = toUpperCase x
                 in if upperNote = ''BB'' then ''Bb''
                    else if upperNote \<in> set SUPPORTED_NOTES then upperNote else x)"
    and "errors (validateNote config m k p) = []"
  shows "m \<in> set SUPPORTED_NOTES"
proof (cases "toUpperCase x = ''BB'' \<or> toUpperCase x \<in> set SUPPORTED_NOTES")
  case True
  then show ?thesis by (auto simp: m_def Let_def SUPPORTED_NOTES_def)
next
  case False
  then have mx: "m = x" by (simp add: m_def Let_def)
  have nb: "\<not> (toUpperCase x = ''B'' \<and> autoConvertB config)"
  proof
    assume a: "toUpperCase x = ''B'' \<and> autoConvertB config"
    show False
    proof (cases "toUpperCase t = ''B''")
      case True
      with a have "x = ''Bb''" by (simp add: x_def)
      with a show False by (simp add: toUpperCase_examples)
    next
      case False
      then have "x = t" by (simp add: x_def)
      with a False show False by simp
    qed
  qed
  from assms(3) mx nb
  have "toUpperCase (take 1 x) @ toLowerCase (drop 1 x) \<in> set SUPPORTED_NOTES"
    by (auto simp: validateNote_errors_cases split: if_splits)
  from capitalised_supported [OF this] False show ?thesis by simp
qed

lemma filter_concat_map_unique:
  assumes "distinct ks" and "k \<in> set ks"
    and "\<And>i x. i \<in> set ks \<Longrightarrow> i \<noteq> k \<Longrightarrow> x \<in> set (f i) \<Longrightarrow> \<not> P x"
  shows "filter P (concat (map f ks)) = filter P (f k)"
  using assms
proof (induction ks)
  case Nil
  then show ?case by simp
next
  case (Cons a ks)
  show ?case
  proof (cases "a = k")
    case True
    with Cons.prems(1) have "k \<notin> set ks" by simp
    with Cons.prems(3) have "\<forall>i \<in> set ks. \<forall>x \<in> set (f i). \<not> P x" by auto
    then have "filter P (concat (map f ks)) = []"
      by (auto simp: filter_empty_conv)
    with True show ?thesis by simp
  next
    case False
    with Cons.prems(3) [of a] have "filter P (f a) = []"
      by (auto simp: filter_empty_conv)
    moreover from False Cons.prems have "filter P (concat (map f ks)) = filter P (f k)"
      by (intro Cons.IH) auto
    ultimately show ?thesis by simp
  qed
qed

lemma splitSeparators_not_Nil: "splitSeparators s \<noteq> []"
  by (induction s rule: splitSeparators.induct) (auto split: list.splits)

lemma splitSeparators_tokens:
  "t \<in> set (splitSeparators s) \<Longrightarrow> c \<in> set t \<Longrightarrow> \<not> isSeparator c"
proof (induction s arbitrary: t rule: splitSeparators.induct)
  case 1
  then show ?case by simp
next
  case (2 a cs)
  show ?case
  proof (cases "isSeparator a")
    case True
    with "2.prems" "2.IH"(1) [of t] show ?thesis by auto
  next
    case False
    obtain h r where hr: "splitSeparators cs = h # r"
      using splitSeparators_not_Nil [of cs] by (cases "splitSeparators cs") auto
    with "2.prems"(1) False have "t = a # h \<or> t \<in> set r" by auto
    then show ?thesis
    proof
      assume "t = a # h"
      with "2.prems"(2) have "c = a \<or> c \<in> set h" by auto
      with "2.IH"(2) [OF False, of h] hr False show ?thesis by auto
    next
      assume "t \<in> set r"
      with "2.IH"(2) [OF False, of t] "2.prems"(2) hr show ?thesis by auto
    qed
  qed
qed

lemma splitSeparators_chars:
  "t \<in> set (splitSeparators s) \<Longrightarrow> c \<in> set t \<Longrightarrow> c \<in> set s"
proof (induction s arbitrary: t rule: splitSeparators.induct)
  case 1
  then show ?case by simp
next
  case (2 a cs)
  show ?case
  proof (cases "isSeparator a")
    case True
    with "2.prems" "2.IH"(1) [of t] show ?thesis by (auto dest: set_dropWhileD)
  next
    case False
    obtain h r where hr: "splitSeparators cs = h # r"
      using splitSeparators_not_Nil [of cs] by (cases "splitSeparators cs") auto
    with "2.prems"(1) False have "t = a # h \<or> t \<in> set r" by auto
    then show ?thesis
    proof
      assume "t = a # h"
      with "2.prems"(2) have "c = a \<or> c \<in> set h" by auto
      with "2.IH"(2) [OF False, of h] hr False show ?thesis by auto
    next
      assume "t \<in> set r"
      with "2.IH"(2) [OF False, of t] "2.prems"(2) hr show ?thesis by auto
    qed
  qed
qed

lemma blank_line_no_tokens:
  assumes "trim l = []"
  shows "filter (\<lambda>n. length n > 0) (map trim (splitSeparators l)) = []"
proof -
  have e: "t = []" if "t \<in> set (splitSeparators l)" for t
  proof (cases t)
    case Nil
    then show ?thesis .
  next
    case (Cons c cs)
    with that have "c \<in> set l" "\<not> isSeparator c"
      using splitSeparators_chars [of t l c] splitSeparators_tokens [of t l c] by auto
    with assms show ?thesis by (auto simp: trim_Nil_iff isSeparator_def)
  qed
  have "trim t = []" if "t \<in> set (splitSeparators l)" for t
    using e [OF that] by (simp add: trim_def)
  then show ?thesis by (simp add: filter_empty_conv)
qed

lemma validateNoteLine_errors:
  assumes "trim l \<noteq> []"
  shows "errors (validateNoteLine config l k) =
    (if int (length (parseNotesFromLine config l)) > maxNotesPerLine config then
       [\<lparr>etype = PARSING_ERROR,
         message = ''Too many notes on line '' @ showNat k @ '' (''
           @ showNat (length (parseNotesFromLine config l)) @ ''). Maximum: ''
           @ showInt (maxNotesPerLine config),
         line = Some k, position = None,
         suggestions = Some [''Split long lines into multiple shorter lines'']\<rparr>]
     else [])
    @ concat (map (\<lambda>i. errors (validateNote config (parseNotesFromLine config l ! i) k (i + 1)))
        [0..<length (parseNotesFromLine config l)])"
  using assms by (simp add: validateNoteLine_def Let_def o_def)

lemma validateNoteLine_error_mem:
  assumes "e \<in> set (errors (validateNoteLine config l k))"
  shows "(etype e = PARSING_ERROR \<and> position e = None)
    \<or> (\<exists>i < length (parseNotesFromLine config l).
          e \<in> set (errors (validateNote config (parseNotesFromLine config l ! i) k (i + 1))))"
proof (cases "trim l = []")
  case True
  with assms show ?thesis by (simp add: validateNoteLine_def)
next
  case False
  from assms show ?thesis
    unfolding validateNoteLine_errors [OF False]
    by (auto split: if_splits)
qed

lemma validateNoteLine_error_line:
  assumes "e \<in> set (errors (validateNoteLine config l k))"
  shows "line e = Some k"
proof (cases "trim l = []")
  case True
  with assms show ?thesis by (simp add: validateNoteLine_def)
next
  case False
  from assms show ?thesis
    unfolding validateNoteLine_errors [OF False]
    by (auto split: if_splits dest: validateNote_error_fields)
qed

lemma validateNoteLine_warning_line:
  assumes "w \<in> set (warnings (validateNoteLine config l k))"
  shows "wline w = Some k"
proof (cases "trim l = []")
  case True
  with assms show ?thesis by (simp add: validateNoteLine_def)
next
  case False
  from assms show ?thesis
    unfolding validateNoteLine_warnings [OF False]
    by (auto simp: willConvertWarning_def split: if_splits)
qed

lemma validateInput_errors:
  assumes "trim input \<noteq> []"
  shows "errors (validateInput config input) =
    (if length (preprocessInput input) < 2 then
       [\<lparr>etype = PARSING_ERROR,
         message = ''Input must contain a title and at least one line of notes'',
         line = None, position = None,
         suggestions = Some [''Add a title on the first line and notes on subsequent lines'']\<rparr>]
     else [])
    @ (if int (length (preprocessInput input)) > maxLines config then
         [\<lparr>etype = PARSING_ERROR,
           message = ''Too many lines ('' @ showNat (length (preprocessInput input))
             @ ''). Maximum allowed: '' @ showInt (maxLines config),
           line = None, position = None,
           suggestions = Some [''Split large songs into smaller sections'']\<rparr>]
       else [])
    @ concat (map (\<lambda>i. errors (validateNoteLine config (preprocessInput input ! i) (i + 1)))
        [1..<length (preprocessInput input)])"
proof -
  from assms have "input \<noteq> []" by auto
  with assms show ?thesis
    by (simp add: validateInput_def Let_def o_def)
qed

lemma validateInput_warnings:
  assumes "trim input \<noteq> []"
  shows "warnings (validateInput config input) =
    concat (map (\<lambda>i. warnings (validateNoteLine config (preprocessInput input ! i) (i + 1)))
        [1..<length (preprocessInput input)])"
proof -
  from assms have "input \<noteq> []" by auto
  with assms show ?thesis
    by (simp add: validateInput_def Let_def o_def)
qed

lemma capitalise_examples:
  "toUpperCase (take 1 ''Bb'') @ toLowerCase (drop 1 ''Bb'') = ''Bb''"
  "toUpperCase (take 1 ''b'') @ toLowerCase (drop 1 ''b'') = ''B''"
  "toUpperCase (take 1 ''B'') @ toLowerCase (drop 1 ''B'') = ''B''"
  by code_simp+

lemma validateNote_Bb: "errors (validateNote config ''Bb'' k p) = []"
  unfolding validateNote_errors_cases capitalise_examples
  by (simp add: SUPPORTED_NOTES_def)

lemma convertNotes_off:
  "\<not> autoConvertB config \<Longrightarrow> convertNotes config ns = (ns, [])"
  by (induction ns) simp_all

lemma validateNoteLine_warnings_off:
  assumes "\<not> autoConvertB config" and "w \<in> set (warnings (validateNoteLine config l k))"
  shows "wtype w = EMPTY_LINE"
proof (cases "trim l = []")
  case True
  with assms show ?thesis by (simp add: validateNoteLine_def)
next
  case False
  from assms show ?thesis
    unfolding validateNoteLine_warnings [OF False] by simp
qed

lemma input_with_token_not_blank:
  assumes "k < length (preprocessInput input)"
    and "filter (\<lambda>n. length n > 0) (map trim (splitSeparators (preprocessInput input ! k))) \<noteq> []"
  shows "trim input \<noteq> []" and "trim (preprocessInput input ! k) \<noteq> []"
proof -
  show nb: "trim (preprocessInput input ! k) \<noteq> []"
    using assms(2) blank_line_no_tokens by blast
  show "trim input \<noteq> []"
  proof
    assume "trim input = []"
    then have "\<forall>l \<in> set (preprocessInput input). l = []" by (rule preprocessInput_blank)
    with assms(1) have "preprocessInput input ! k = []" by simp
    with nb show False by simp
  qed
qed

text \<open>
  Claim C4. Let the raw token at index \<open>p\<close> of note line \<open>k\<close> (line number \<open>k + 1\<close>) be
  \<open>B\<close> in either case. With \<open>autoConvertB\<close>, \<^const>\<open>convertNotes\<close> puts \<open>Bb\<close> in its
  place, \<^const>\<open>validateInput\<close> reports exactly one \<open>NOTE_CONVERSION\<close> warning at that line and
  at position \<open>p + 1\<close>, and no \<open>UNSUPPORTED_NOTE\<close> error there. Without it,
  \<^const>\<open>convertNotes\<close> leaves the tokens as they are and gives no warning, validation reports no
  conversion warning, and it reports an \<open>UNSUPPORTED_NOTE\<close> error at that line and position
  whose first suggestion is to use \<open>Bb\<close>.
\<close>

theorem B_conversion:
  assumes "1 \<le> k" and "k < length (preprocessInput input)"
    and "rawNotes =
      filter (\<lambda>n. length n > 0) (map trim (splitSeparators (preprocessInput input ! k)))"
    and "p < length rawNotes" and "toUpperCase (rawNotes ! p) = ''B''"
  shows "(autoConvertB config \<longrightarrow>
           fst (convertNotes config rawNotes) ! p = ''Bb''
           \<and> filter (\<lambda>w. wtype w = NOTE_CONVERSION \<and> wline w = Some (k + 1)
                         \<and> wposition w = Some (p + 1))
                 (warnings (validateInput config input)) = [willConvertWarning (k + 1) (p + 1)]
           \<and> \<not> (\<exists>e \<in> set (errors (validateInput config input)).
                   etype e = UNSUPPORTED_NOTE \<and> line e = Some (k + 1)
                   \<and> position e = Some (p + 1)))
       \<and> (\<not> autoConvertB config \<longrightarrow>
           convertNotes config rawNotes = (rawNotes, [])
           \<and> filter (\<lambda>w. wtype w = NOTE_CONVERSION) (warnings (validateInput config input)) = []
           \<and> \<lparr>etype = UNSUPPORTED_NOTE,
                message = unsupportedMessage (rawNotes ! p) (k + 1) (p + 1),
                line = Some (k + 1), position = Some (p + 1),
                suggestions = Some (''Use Bb instead of B for 4-hole ocarinas''
                                    # SUPPORTED_NOTES)\<rparr>
               \<in> set (errors (validateInput config input)))"
proof -
  let ?ls = "preprocessInput input"
  let ?l = "?ls ! k"
  let ?ns = "parseNotesFromLine config ?l"
  from assms(4) have "rawNotes \<noteq> []" by auto
  then have tok: "filter (\<lambda>n. length n > 0) (map trim (splitSeparators ?l)) \<noteq> []"
    unfolding assms(3) .
  note ne = input_with_token_not_blank [OF assms(2) tok]
  have len: "length ?ns = length rawNotes"
    unfolding assms(3) parseNotesFromLine_map by simp
  have kin: "k \<in> set [1..<length ?ls]" using assms(1,2) by simp
  have lw: "warnings (validateNoteLine config ?l (k + 1)) =
      concat (map (\<lambda>i. if toUpperCase (rawNotes ! i) = ''B'' \<and> autoConvertB config
                         then [willConvertWarning (k + 1) (i + 1)] else [])
              [0..<length rawNotes])"
    unfolding assms(3) using ne(2) by (rule validateNoteLine_warnings)
  show ?thesis
  proof (intro conjI impI)
    assume au: "autoConvertB config"
    from assms(4,5) au show "fst (convertNotes config rawNotes) ! p = ''Bb''"
      by (simp add: convertNotes_fst)
    let ?P = "\<lambda>w. wtype w = NOTE_CONVERSION \<and> wline w = Some (k + 1)
                         \<and> wposition w = Some (p + 1)"
    have "filter ?P (warnings (validateInput config input))
        = filter ?P (warnings (validateNoteLine config ?l (k + 1)))"
      unfolding validateInput_warnings [OF ne(1)]
      by (rule filter_concat_map_unique [where k = k])
         (use kin in \<open>auto dest: validateNoteLine_warning_line\<close>)
    also have "\<dots> = filter ?P (if toUpperCase (rawNotes ! p) = ''B'' \<and> autoConvertB config
                         then [willConvertWarning (k + 1) (p + 1)] else [])"
      unfolding lw
      by (rule filter_concat_map_unique [where k = p])
         (use assms(4) in \<open>auto simp: willConvertWarning_def split: if_splits\<close>)
    also have "\<dots> = [willConvertWarning (k + 1) (p + 1)]"
      using assms(5) au by (simp add: willConvertWarning_def)
    finally show "filter ?P (warnings (validateInput config input))
        = [willConvertWarning (k + 1) (p + 1)]" .
    have nsp: "?ns ! p = ''Bb''"
      unfolding parseNotesFromLine_map
      using assms(3,4,5) au by (simp add: Let_def toUpperCase_examples)
    show "\<not> (\<exists>e \<in> set (errors (validateInput config input)).
                   etype e = UNSUPPORTED_NOTE \<and> line e = Some (k + 1)
                   \<and> position e = Some (p + 1))"
    proof
      assume "\<exists>e \<in> set (errors (validateInput config input)).
                   etype e = UNSUPPORTED_NOTE \<and> line e = Some (k + 1)
                   \<and> position e = Some (p + 1)"
      then obtain e where e: "e \<in> set (errors (validateInput config input))"
        "etype e = UNSUPPORTED_NOTE" "line e = Some (k + 1)" "position e = Some (p + 1)"
        by blast
      from e(1,2) obtain i where i: "i \<in> set [1..<length ?ls]"
        "e \<in> set (errors (validateNoteLine config (?ls ! i) (i + 1)))"
        unfolding validateInput_errors [OF ne(1)] by (auto split: if_splits)
      from validateNoteLine_error_line [OF i(2)] e(3) have "i = k" by simp
      with i(2) have "e \<in> set (errors (validateNoteLine config ?l (k + 1)))" by simp
      from validateNoteLine_error_mem [OF this] e(2)
      obtain j where j: "j < length ?ns"
        "e \<in> set (errors (validateNote config (?ns ! j) (k + 1) (j + 1)))"
        by auto
      from validateNote_error_fields [OF j(2)] e(4) have "j = p" by simp
      with j(2) nsp have "e \<in> set (errors (validateNote config ''Bb'' (k + 1) (p + 1)))"
        by simp
      then show False
        by (simp add: validateNote_Bb)
    qed
  next
    assume off: "\<not> autoConvertB config"
    then show "convertNotes config rawNotes = (rawNotes, [])" by (rule convertNotes_off)
    show "filter (\<lambda>w. wtype w = NOTE_CONVERSION) (warnings (validateInput config input)) = []"
      unfolding validateInput_warnings [OF ne(1)]
      using validateNoteLine_warnings_off [OF off]
      by (fastforce simp: filter_empty_conv)
    let ?e = "\<lparr>etype = UNSUPPORTED_NOTE,
                message = unsupportedMessage (rawNotes ! p) (k + 1) (p + 1),
                line = Some (k + 1), position = Some (p + 1),
                suggestions = Some (''Use Bb instead of B for 4-hole ocarinas''
                                    # SUPPORTED_NOTES)\<rparr>"
    have nsp: "?ns ! p = rawNotes ! p"
      unfolding parseNotesFromLine_map
      using assms(3,4,5) off by (simp add: Let_def SUPPORTED_NOTES_def)
    from assms(5) have "rawNotes ! p = ''b'' \<or> rawNotes ! p = ''B''"
      by (simp add: toUpperCase_B)
    then have cap: "toUpperCase (take 1 (rawNotes ! p)) @ toLowerCase (drop 1 (rawNotes ! p))
        = ''B''"
      by (auto simp: toUpperCase_B toLowerCase_def)
    have "errors (validateNote config (rawNotes ! p) (k + 1) (p + 1)) = [?e]"
      unfolding validateNote_errors_cases cap
      using assms(5) off by (simp add: SUPPORTED_NOTES_def)
    with nsp have "?e \<in> set (errors (validateNote config (?ns ! p) (k + 1) (p + 1)))"
      by simp
    with assms(4) len have "?e \<in> set (errors (validateNoteLine config ?l (k + 1)))"
      unfolding validateNoteLine_errors [OF ne(2)] by auto
    with kin show "?e \<in> set (errors (validateInput config input))"
      unfolding validateInput_errors [OF ne(1)] by auto
  qed
qed

theorem B_conversion_witness:
  "1 < length (preprocessInput ''Test\<newline>F B G'')
   \<and> filter (\<lambda>n. length n > 0)
        (map trim (splitSeparators (preprocessInput ''Test\<newline>F B G'' ! 1)))
       = [''F'', ''B'', ''G'']
   \<and> toUpperCase ([''F'', ''B'', ''G''] ! 1) = ''B''
   \<and> autoConvertB DEFAULT_CONFIG
   \<and> fst (convertNotes DEFAULT_CONFIG [''F'', ''B'', ''G'']) ! 1 = ''Bb''
   \<and> filter (\<lambda>w. wtype w = NOTE_CONVERSION \<and> wline w = Some 2 \<and> wposition w = Some 2)
        (warnings (validateInput DEFAULT_CONFIG ''Test\<newline>F B G''))
       = [willConvertWarning 2 2]
   \<and> \<not> autoConvertB (DEFAULT_CONFIG\<lparr>autoConvertB := False\<rparr>)
   \<and> convertNotes (DEFAULT_CONFIG\<lparr>autoConvertB := False\<rparr>) [''F'', ''B'', ''G'']
       = ([''F'', ''B'', ''G''], [])
   \<and> \<lparr>etype = UNSUPPORTED_NOTE, message = unsupportedMessage ''B'' 2 2,
        line = Some 2, position = Some 2,
        suggestions = Some (''Use Bb instead of B for 4-hole ocarinas'' # SUPPORTED_NOTES)\<rparr>
       \<in> set (errors (validateInput (DEFAULT_CONFIG\<lparr>autoConvertB := False\<rparr>)
                 ''Test\<newline>F B G''))"
proof -
  have prep: "preprocessInput ''Test\<newline>F B G'' = [''Test'', ''F B G'']"
    by code_simp
  have raw: "filter (\<lambda>n. length n > 0) (map trim (splitSeparators ''F B G''))
      = [''F'', ''B'', ''G'']"
    by code_simp
  have up: "toUpperCase ''B'' = ''B''" by code_simp
  have l1: "preprocessInput ''Test\<newline>F B G'' ! 1 = ''F B G''"
    by (simp add: prep)
  have h3: "[''F'', ''B'', ''G''] = filter (\<lambda>n. length n > 0)
        (map trim (splitSeparators (preprocessInput ''Test\<newline>F B G'' ! 1)))"
    unfolding l1 raw by (rule refl)
  have h124: "(1::nat) \<le> 1" "1 < length (preprocessInput ''Test\<newline>F B G'')"
    "1 < length [''F'', ''B'', ''G'']"
    by (simp_all add: prep)
  have h5: "toUpperCase ([''F'', ''B'', ''G''] ! 1) = ''B''"
    by (simp add: up)
  note h = h124(1,2) h3 h124(3) h5
  have on: "autoConvertB DEFAULT_CONFIG"
    and off: "\<not> autoConvertB (DEFAULT_CONFIG\<lparr>autoConvertB := False\<rparr>)"
    by (simp_all add: DEFAULT_CONFIG_def)
  note a = B_conversion [OF h, of DEFAULT_CONFIG]
  note b = B_conversion [OF h, of "DEFAULT_CONFIG\<lparr>autoConvertB := False\<rparr>"]
  from a on have a': "fst (convertNotes DEFAULT_CONFIG [''F'', ''B'', ''G'']) ! 1 = ''Bb''
    \<and> filter (\<lambda>w. wtype w = NOTE_CONVERSION \<and> wline w = Some (1 + 1)
                  \<and> wposition w = Some (1 + 1))
        (warnings (validateInput DEFAULT_CONFIG ''Test\<newline>F B G''))
       = [willConvertWarning (1 + 1) (1 + 1)]"
    by blast
  from b off have b': "convertNotes (DEFAULT_CONFIG\<lparr>autoConvertB := False\<rparr>) [''F'', ''B'', ''G'']
       = ([''F'', ''B'', ''G''], [])
    \<and> \<lparr>etype = UNSUPPORTED_NOTE,
        message = unsupportedMessage ([''F'', ''B'', ''G''] ! 1) (1 + 1) (1 + 1),
        line = Some (1 + 1), position = Some (1 + 1),
        suggestions = Some (''Use Bb instead of B for 4-hole ocarinas'' # SUPPORTED_NOTES)\<rparr>
       \<in> set (errors (validateInput (DEFAULT_CONFIG\<lparr>autoConvertB := False\<rparr>)
                 ''Test\<newline>F B G''))"
    by blast
  have two: "(1::nat) + 1 = 2" by simp
  from a' b' h(2) h(3) [symmetric] h(5) on off show ?thesis
    unfolding two by simp
qed

section \<open>The song of a valid input\<close>

lemma parseNoteLines_filter:
  "parseNoteLines config ls =
    filter (\<lambda>ns. ns \<noteq> [])
      (map (parseNotesFromLine config) (filter (\<lambda>l. trim l \<noteq> []) ls))"
  by (induction ls) (simp_all add: Let_def)

lemma line_notes_supported:
  assumes "errors (validateNoteLine config l k) = []" and "trim l \<noteq> []"
  shows "\<forall>n \<in> set (parseNotesFromLine config l). n \<in> set SUPPORTED_NOTES"
proof
  fix n assume "n \<in> set (parseNotesFromLine config l)"
  then obtain j where j: "j < length (parseNotesFromLine config l)"
    "n = parseNotesFromLine config l ! j"
    by (auto simp: in_set_conv_nth)
  define raw where "raw = filter (\<lambda>n. length n > 0) (map trim (splitSeparators l))"
  have p: "parseNotesFromLine config l =
      map (\<lambda>t. let upperNote = toUpperCase
                   (if toUpperCase t = ''B'' \<and> autoConvertB config then ''Bb'' else t)
             in if upperNote = ''BB'' then ''Bb''
                else if upperNote \<in> set SUPPORTED_NOTES then upperNote
                else (if toUpperCase t = ''B'' \<and> autoConvertB config then ''Bb'' else t)) raw"
    unfolding raw_def by (rule parseNotesFromLine_map)
  from j(1) have jr: "j < length raw" by (simp add: p)
  from assms have "\<forall>i < length (parseNotesFromLine config l).
      errors (validateNote config (parseNotesFromLine config l ! i) k (i + 1)) = []"
    unfolding validateNoteLine_errors [OF assms(2)] by (auto split: if_splits)
  with j have e: "errors (validateNote config n k (j + 1)) = []" by simp
  have n: "n = (let upperNote = toUpperCase
                   (if toUpperCase (raw ! j) = ''B'' \<and> autoConvertB config then ''Bb''
                    else raw ! j)
             in if upperNote = ''BB'' then ''Bb''
                else if upperNote \<in> set SUPPORTED_NOTES then upperNote
                else (if toUpperCase (raw ! j) = ''B'' \<and> autoConvertB config then ''Bb''
                      else raw ! j))"
    using j(2) jr by (simp add: p)
  show "n \<in> set SUPPORTED_NOTES"
    by (rule parsed_note_supported [OF refl n e])
qed

lemma validateInput_valid:
  "isValid (validateInput config input) \<longleftrightarrow>
    trim input \<noteq> [] \<and> errors (validateInput config input) = []"
  by (auto simp: validateInput_def Let_def)

lemma extractTitle_cases:
  "extractTitle ls =
    (if ls = [] \<or> trim (ls ! 0) = [] \<or> trim (stripTitlePrefix (trim (ls ! 0))) = []
     then ''Untitled Song'' else trim (stripTitlePrefix (trim (ls ! 0))))"
  by (simp add: extractTitle_def Let_def UNTITLED_def)

text \<open>
  Claim C2. When \<^const>\<open>validateInput\<close> reports the input valid, \<^const>\<open>parseSong\<close> returns a
  song in which every note is one of the seven names F, G, A, Bb, C, D, E in that casing; the
  lines of the song are the parsed note lines of the non-blank input lines after the first, those
  without a token left out, so none of them is empty; and the title is not empty: it is
  \<open>Untitled Song\<close> when the first line is empty or is empty once the prefix is stripped, and
  the stripped first line otherwise.
\<close>

theorem parseSong_invariant:
  assumes "isValid (validateInput config input)"
  shows "\<exists>song. parseSong config now input = Inr song
      \<and> (\<forall>l \<in> set (lines song). \<forall>n \<in> set l. n \<in> set SUPPORTED_NOTES)
      \<and> [] \<notin> set (lines song)
      \<and> lines song =
          filter (\<lambda>ns. ns \<noteq> [])
            (map (parseNotesFromLine config)
              (filter (\<lambda>l. trim l \<noteq> []) (drop 1 (preprocessInput input))))
      \<and> title song \<noteq> []
      \<and> title song =
          (if trim (preprocessInput input ! 0) = []
              \<or> trim (stripTitlePrefix (trim (preprocessInput input ! 0))) = []
           then ''Untitled Song''
           else trim (stripTitlePrefix (trim (preprocessInput input ! 0))))"
proof -
  let ?ls = "preprocessInput input"
  let ?song = "\<lparr>title = extractTitle ?ls, lines = parseNoteLines config (drop 1 ?ls),
      metadata = Some \<lparr>originalInput = input, parseTimestamp = now,
                        noteCount = length (concat (parseNoteLines config (drop 1 ?ls)))\<rparr>\<rparr>"
  from assms have ne: "trim input \<noteq> []" and noerr: "errors (validateInput config input) = []"
    by (simp_all add: validateInput_valid)
  have ps: "parseSong config now input = Inr ?song"
    using assms by (simp add: parseSong_def Let_def)
  have lne: "?ls \<noteq> []"
    by (simp add: preprocessInput_def splitLines_not_Nil)
  from noerr have le: "\<forall>i \<in> set [1..<length ?ls].
      errors (validateNoteLine config (?ls ! i) (i + 1)) = []"
    unfolding validateInput_errors [OF ne] by (auto split: if_splits)
  have sup: "\<forall>l \<in> set (parseNoteLines config (drop 1 ?ls)). \<forall>n \<in> set l.
      n \<in> set SUPPORTED_NOTES"
  proof (intro ballI)
    fix ns n assume ns: "ns \<in> set (parseNoteLines config (drop 1 ?ls))" and n: "n \<in> set ns"
    from ns obtain l where l: "l \<in> set (drop 1 ?ls)" "trim l \<noteq> []"
      "ns = parseNotesFromLine config l"
      unfolding parseNoteLines_filter by auto
    from l(1) obtain j where j: "j < length (drop 1 ?ls)" "l = drop 1 ?ls ! j"
      by (auto simp: in_set_conv_nth)
    then have li: "l = ?ls ! (j + 1)" "j + 1 \<in> set [1..<length ?ls]" by auto
    with le have "errors (validateNoteLine config l (j + 1 + 1)) = []" by blast
    from line_notes_supported [OF this l(2)] l(3) n show "n \<in> set SUPPORTED_NOTES" by simp
  qed
  have li: "parseNoteLines config (drop 1 ?ls) =
          filter (\<lambda>ns. ns \<noteq> [])
            (map (parseNotesFromLine config) (filter (\<lambda>l. trim l \<noteq> []) (drop 1 ?ls)))"
    by (rule parseNoteLines_filter)
  have nn: "[] \<notin> set (parseNoteLines config (drop 1 ?ls))"
    unfolding li by simp
  have ti: "extractTitle ?ls =
          (if trim (?ls ! 0) = [] \<or> trim (stripTitlePrefix (trim (?ls ! 0))) = []
           then ''Untitled Song'' else trim (stripTitlePrefix (trim (?ls ! 0))))"
    using lne by (simp add: extractTitle_cases)
  have tn: "extractTitle ?ls \<noteq> []"
    unfolding ti by simp
  show ?thesis
    unfolding ps using sup nn li tn ti by simp
qed

theorem parseSong_invariant_witness:
  "isValid (validateInput DEFAULT_CONFIG ''Song: Foo\<newline>f b\<newline>\<newline>G'')
   \<and> (\<exists>song. parseSong DEFAULT_CONFIG
         \<lparr>year = 2024, month = 1, day = 15, hours = 10, minutes = 30, seconds = 45,
          milliseconds = 123\<rparr> ''Song: Foo\<newline>f b\<newline>\<newline>G'' = Inr song
       \<and> lines song = [[''F'', ''Bb''], [''G'']] \<and> title song = ''Foo'')"
proof -
  have v: "isValid (validateInput DEFAULT_CONFIG ''Song: Foo\<newline>f b\<newline>\<newline>G'')"
    by code_simp
  have L: "filter (\<lambda>ns. ns \<noteq> [])
            (map (parseNotesFromLine DEFAULT_CONFIG)
              (filter (\<lambda>l. trim l \<noteq> [])
                (drop 1 (preprocessInput ''Song: Foo\<newline>f b\<newline>\<newline>G''))))
      = [[''F'', ''Bb''], [''G'']]"
    by code_simp
  have T: "(if trim (preprocessInput ''Song: Foo\<newline>f b\<newline>\<newline>G'' ! 0) = []
              \<or> trim (stripTitlePrefix
                   (trim (preprocessInput ''Song: Foo\<newline>f b\<newline>\<newline>G'' ! 0))) = []
           then ''Untitled Song''
           else trim (stripTitlePrefix
                  (trim (preprocessInput ''Song: Foo\<newline>f b\<newline>\<newline>G'' ! 0))))
      = ''Foo''"
    by code_simp
  note r = parseSong_invariant [OF v, unfolded L T]
  from v r show ?thesis by blast
qed

end
